theory Spec2Isabelle
  imports Main "HOL-Library.Sublist"
begin

section \<open>Values of the program\<close>

text \<open>
  The server (\<^verbatim>\<open>rainforest_server.py\<close>) works on what \<^verbatim>\<open>json.loads\<close> returns: dicts, lists,
  strings, ints, floats, booleans and \<^verbatim>\<open>None\<close>. A Python \<^verbatim>\<open>str\<close> is held as the bytes of its
  UTF-8 encoding, so that \<^verbatim>\<open>.encode("utf-8")\<close> at the end of \<^verbatim>\<open>render_html\<close> is the identity;
  strings with lone surrogates, which have no encoding, are outside the model. A dict is an
  association list read with \<open>map_of\<close>. A float is kept as sign, mantissa and binary
  exponent (the value \<open>m * 2 ^ e\<close>), or as one of the special values.
\<close>

datatype pyfloat = Finite bool nat int | Infinite bool | NaN

datatype json =
    JNull
  | JBool bool
  | JInt int
  | JFloat pyfloat
  | JStr string
  | JList "json list"
  | JObj "(string \<times> json) list"

type_synonym pydict = "(string \<times> json) list"

text \<open>The exceptions that the modelled code can raise outside its own \<^verbatim>\<open>try\<close> block.\<close>

datatype py_error = AttributeError | TypeError | OverflowError | IndexError

text \<open>Truth value testing, as \<^verbatim>\<open>or\<close>, \<^verbatim>\<open>not\<close> and \<^verbatim>\<open>if\<close> apply it.\<close>

fun truthy :: "json \<Rightarrow> bool" where
  "truthy JNull = False"
| "truthy (JBool b) = b"
| "truthy (JInt n) = (n \<noteq> 0)"
| "truthy (JFloat (Finite s m e)) = (m \<noteq> 0)"
| "truthy (JFloat (Infinite s)) = True"
| "truthy (JFloat NaN) = True"
| "truthy (JStr s) = (s \<noteq> [])"
| "truthy (JList xs) = (xs \<noteq> [])"
| "truthy (JObj kvs) = (kvs \<noteq> [])"

definition py_or :: "json \<Rightarrow> json \<Rightarrow> json" where
  "py_or a b = (if truthy a then a else b)"

text \<open>\<^verbatim>\<open>d.get(k)\<close> and \<^verbatim>\<open>d.get(k, default)\<close> on a dict.\<close>

definition dict_get_default :: "pydict \<Rightarrow> string \<Rightarrow> json \<Rightarrow> json" where
  "dict_get_default d k dflt = (case map_of d k of None \<Rightarrow> dflt | Some v \<Rightarrow> v)"

definition dict_get :: "pydict \<Rightarrow> string \<Rightarrow> json" where
  "dict_get d k = dict_get_default d k JNull"

text \<open>\<^verbatim>\<open>x.get(k)\<close> on any value: only a dict has the method.\<close>

definition py_get :: "json \<Rightarrow> string \<Rightarrow> py_error + json" where
  "py_get x k = (case x of JObj d \<Rightarrow> Inr (dict_get d k) | _ \<Rightarrow> Inl AttributeError)"

subsection \<open>Numbers as text\<close>

fun digits :: "nat \<Rightarrow> string" where
  "digits n = (if n < 10 then [''0123456789'' ! n]
               else digits (n div 10) @ [''0123456789'' ! (n mod 10)])"

declare digits.simps [simp del]

definition show_int :: "int \<Rightarrow> string" where
  "show_int n = (if n < 0 then ''-'' @ digits (nat (- n)) else digits (nat n))"

text \<open>
  \<^verbatim>\<open>str(x)\<close>, which is also what an f-string field without a format does. Python's \<^verbatim>\<open>repr\<close> of
  floats, lists and dicts (shortest round-trip digits, quoting of nested strings) is not
  modelled: it is the parameter \<open>rp\<close>.
\<close>

fun py_str :: "(json \<Rightarrow> string) \<Rightarrow> json \<Rightarrow> string" where
  "py_str rp JNull = ''None''"
| "py_str rp (JBool b) = (if b then ''True'' else ''False'')"
| "py_str rp (JInt n) = show_int n"
| "py_str rp (JStr s) = s"
| "py_str rp v = rp v"

subsection \<open>Slices\<close>

text \<open>\<^verbatim>\<open>xs[:k]\<close>: a negative bound counts from the end.\<close>

definition slice_to :: "'a list \<Rightarrow> int \<Rightarrow> 'a list" where
  "slice_to xs k = (if 0 \<le> k then take (nat k) xs else take (nat (int (length xs) + k)) xs)"

text \<open>The characters of a string: each lead byte with the continuation bytes after it.\<close>

definition is_cont :: "char \<Rightarrow> bool" where
  "is_cont c = (128 \<le> (of_char c :: nat) \<and> (of_char c :: nat) < 192)"

function utf8_chars :: "string \<Rightarrow> string list" where
  "utf8_chars [] = []"
| "utf8_chars (c # cs) = (c # takeWhile is_cont cs) # utf8_chars (dropWhile is_cont cs)"
  by pat_completeness auto
termination
  by (relation "measure length") (auto simp: length_dropWhile_le less_Suc_eq_le)

text \<open>
  \<^verbatim>\<open>for item in raw_results[:max_items]\<close>: the items the loop visits. A list and a string can be
  sliced and iterated; \<^verbatim>\<open>None\<close>, numbers and booleans raise TypeError on the subscript, and so
  does a dict (KeyError instead on interpreters where slice objects hash).
\<close>

definition sliced_items :: "json \<Rightarrow> int \<Rightarrow> py_error + json list" where
  "sliced_items raw_results max_items =
     (case raw_results of
        JList xs \<Rightarrow> Inr (slice_to xs max_items)
      | JStr s \<Rightarrow> Inr (map JStr (slice_to (utf8_chars s) max_items))
      | _ \<Rightarrow> Inl TypeError)"

section \<open>search_rainforest\<close>

record config =
  RAINFOREST_API_KEY :: "string option"
  AMAZON_DOMAIN :: string


definition RAINFOREST_ENDPOINT :: string where
  "RAINFOREST_ENDPOINT = ''https://api.rainforestapi.com/request''"

text \<open>\<^verbatim>\<open>not RAINFOREST_API_KEY\<close>: the variable is unset or empty.\<close>

definition key_missing :: "config \<Rightarrow> bool" where
  "key_missing cfg = (case RAINFOREST_API_KEY cfg of None \<Rightarrow> True | Some k \<Rightarrow> k = [])"

subsection \<open>The request URL\<close>

definition hex_digit :: "nat \<Rightarrow> char" where
  "hex_digit n = ''0123456789ABCDEF'' ! n"

definition unreserved :: "char \<Rightarrow> bool" where
  "unreserved c = (c \<in> set (''ABCDEFGHIJKLMNOPQRSTUVWXYZ'' @ ''abcdefghijklmnopqrstuvwxyz''
                               @ ''0123456789'' @ ''_.-~''))"

definition quote_byte :: "char \<Rightarrow> string" where
  "quote_byte c =
     (if unreserved c then [c]
      else if c = CHR '' '' then ''+''
      else [CHR ''%'', hex_digit (of_char c div 16), hex_digit (of_char c mod 16)])"

definition quote_plus :: "string \<Rightarrow> string" where
  "quote_plus s = concat (map quote_byte s)"

fun urlencode :: "(string \<times> string) list \<Rightarrow> string" where
  "urlencode [] = []"
| "urlencode [(k, v)] = quote_plus k @ ''='' @ quote_plus v"
| "urlencode ((k, v) # kvs) = quote_plus k @ ''='' @ quote_plus v @ ''&'' @ urlencode kvs"

definition request_url :: "config \<Rightarrow> string \<Rightarrow> string \<Rightarrow> string" where
  "request_url cfg key query =
     RAINFOREST_ENDPOINT @ ''?'' @
     urlencode [(''api_key'', key), (''type'', ''search''),
                (''amazon_domain'', AMAZON_DOMAIN cfg), (''search_term'', query)]"



subsection \<open>The fetch\<close>

text \<open>
  What the \<^verbatim>\<open>try\<close> block (\<^verbatim>\<open>urlopen\<close>, \<^verbatim>\<open>read\<close>, \<^verbatim>\<open>decode\<close>, \<^verbatim>\<open>json.loads\<close>) ends in: one of the
  three handlers, with the fields the handler formats, or the parsed document. The network
  is a function from the URL opened to that ending.
\<close>

datatype response =
    HTTPError int string
  | URLError string
  | OtherException string
  | Body json

type_synonym network = "string \<Rightarrow> response"

record outcome =
  results :: "pydict list"
  error :: "string option"

subsection \<open>Normalising one item\<close>

text \<open>Lines 87 to 91: \<^verbatim>\<open>price_raw\<close> after the two conditionals.\<close>

definition price_raw_of :: "pydict \<Rightarrow> py_error + json" where
  "price_raw_of item =
     (let price_raw = (case dict_get item ''price'' of
                         JObj p \<Rightarrow> dict_get p ''raw''
                       | _ \<Rightarrow> JNull)
      in if \<not> truthy price_raw then
           (case dict_get item ''prices'' of
              JList (first # rest) \<Rightarrow> py_get first ''raw''
            | _ \<Rightarrow> Inr price_raw)
         else Inr price_raw)"

text \<open>The body of the loop, lines 81 to 103: the dict appended to \<^verbatim>\<open>cleaned\<close>.\<close>

definition normalize_item :: "(json \<Rightarrow> string) \<Rightarrow> json \<Rightarrow> py_error + pydict" where
  "normalize_item rp item =
     (case item of
        JObj d \<Rightarrow>
          (let title = py_or (dict_get d ''title'') (JStr ''(no title)'');
               asin = py_or (dict_get d ''asin'') (JStr '''');
               link = py_or (dict_get d ''link'')
                        (if truthy asin then JStr (''https://www.amazon.com/dp/'' @ py_str rp asin)
                         else JStr '''');
               img = py_or (dict_get d ''image'') (JStr '''')
           in case price_raw_of d of
                Inl e \<Rightarrow> Inl e
              | Inr price_raw \<Rightarrow>
                  Inr [(''title'', title),
                       (''asin'', asin),
                       (''link'', link),
                       (''image'', img),
                       (''price'', py_or price_raw (JStr '''')),
                       (''rating'', dict_get d ''rating''),
                       (''ratings_total'', dict_get d ''ratings_total'')])
      | _ \<Rightarrow> Inl AttributeError)"

fun normalize_all :: "(json \<Rightarrow> string) \<Rightarrow> json list \<Rightarrow> py_error + pydict list" where
  "normalize_all rp [] = Inr []"
| "normalize_all rp (item # rest) =
     (case normalize_item rp item of
        Inl e \<Rightarrow> Inl e
      | Inr r \<Rightarrow> (case normalize_all rp rest of
                   Inl e \<Rightarrow> Inl e
                 | Inr cleaned \<Rightarrow> Inr (r # cleaned)))"

text \<open>Lines 78 to 105: what follows the \<^verbatim>\<open>try\<close> block, on the parsed document.\<close>

definition clean_results :: "(json \<Rightarrow> string) \<Rightarrow> json \<Rightarrow> int \<Rightarrow> py_error + outcome" where
  "clean_results rp data max_items =
     (case data of
        JObj d \<Rightarrow>
          (case sliced_items (dict_get_default d ''search_results'' (JList [])) max_items of
             Inl e \<Rightarrow> Inl e
           | Inr items \<Rightarrow>
               (case normalize_all rp items of
                  Inl e \<Rightarrow> Inl e
                | Inr cleaned \<Rightarrow> Inr \<lparr>results = cleaned, error = None\<rparr>))
      | _ \<Rightarrow> Inl AttributeError)"

text \<open>
  The function returns its result (an outcome, or the exception that leaves it) together
  with the URLs it opened, in order.
\<close>

definition search_rainforest ::
  "config \<Rightarrow> (json \<Rightarrow> string) \<Rightarrow> network \<Rightarrow> string \<Rightarrow> int \<Rightarrow> (py_error + outcome) \<times> string list" where
  "search_rainforest cfg rp net query max_items =
     (case RAINFOREST_API_KEY cfg of
        None \<Rightarrow>
          (Inr \<lparr>results = [], error = Some ''Missing RAINFOREST_API_KEY environment variable.''\<rparr>, [])
      | Some key \<Rightarrow>
          if key = [] then
            (Inr \<lparr>results = [], error = Some ''Missing RAINFOREST_API_KEY environment variable.''\<rparr>, [])
          else
            (let url = request_url cfg key query
             in (case net url of
                   HTTPError code reason \<Rightarrow>
                     Inr \<lparr>results = [], error = Some (''HTTPError '' @ show_int code @ '': '' @ reason)\<rparr>
                 | URLError reason \<Rightarrow>
                     Inr \<lparr>results = [], error = Some (''Network error: '' @ reason)\<rparr>
                 | OtherException e \<Rightarrow>
                     Inr \<lparr>results = [], error = Some (''Unexpected error: '' @ e)\<rparr>
                 | Body data \<Rightarrow> clean_results rp data max_items,
                 [url])))"

section \<open>render_html\<close>

subsection \<open>html.escape\<close>

text \<open>
  \<^verbatim>\<open>html.escape(s)\<close> with its default \<^verbatim>\<open>quote=True\<close>: five replacements, the ampersand first, so
  that each character of the input is rewritten once. On UTF-8 bytes the five characters are
  single bytes that occur in no longer sequence.
\<close>

definition escape_char :: "char \<Rightarrow> string" where
  \<open>escape_char c =
     (if c = CHR ''&'' then ''&amp;''
      else if c = CHR ''<'' then ''&lt;''
      else if c = CHR ''>'' then ''&gt;''
      else if c = CHR 0x22 then ''&quot;''
      else if c = CHR 0x27 then ''&#x27;''
      else [c])\<close>

definition html_escape :: "string \<Rightarrow> string" where
  "html_escape s = concat (map escape_char s)"

text \<open>Applied to a value that is not a \<^verbatim>\<open>str\<close>, the call fails on \<^verbatim>\<open>s.replace\<close>.\<close>

definition escape_value :: "json \<Rightarrow> py_error + string" where
  "escape_value v = (case v of JStr s \<Rightarrow> Inr (html_escape s) | _ \<Rightarrow> Inl AttributeError)"

subsection \<open>Number formats\<close>

text \<open>
  \<^verbatim>\<open>isinstance(x, (int, float))\<close> and \<^verbatim>\<open>isinstance(x, int)\<close>: \<^verbatim>\<open>bool\<close> is a subclass of \<^verbatim>\<open>int\<close>, with
  \<^verbatim>\<open>True\<close> the integer 1.
\<close>

datatype number = IntNum int | FloatNum pyfloat

definition as_number :: "json \<Rightarrow> number option" where
  "as_number v =
     (case v of
        JInt n \<Rightarrow> Some (IntNum n)
      | JBool b \<Rightarrow> Some (IntNum (if b then 1 else 0))
      | JFloat f \<Rightarrow> Some (FloatNum f)
      | _ \<Rightarrow> None)"

definition as_int :: "json \<Rightarrow> int option" where
  "as_int v =
     (case v of
        JInt n \<Rightarrow> Some n
      | JBool b \<Rightarrow> Some (if b then 1 else 0)
      | _ \<Rightarrow> None)"

text \<open>\<open>n / d\<close> rounded to the nearest integer, a tie to the even one.\<close>

definition round_half_even :: "nat \<Rightarrow> nat \<Rightarrow> nat" where
  "round_half_even n d =
     (let q = n div d; r = n mod d
      in if d < 2 * r \<or> (2 * r = d \<and> odd q) then q + 1 else q)"

fun bit_length :: "nat \<Rightarrow> nat" where
  "bit_length n = (if n = 0 then 0 else Suc (bit_length (n div 2)))"

declare bit_length.simps [simp del]

text \<open>
  \<^verbatim>\<open>float(n)\<close> for an int: the nearest double, ties to even, and OverflowError when that is
  beyond the largest double.
\<close>

definition int_to_float :: "int \<Rightarrow> py_error + pyfloat" where
  "int_to_float n =
     (let a = nat \<bar>n\<bar>
      in if a < 2 ^ 53 then Inr (Finite (n < 0) a 0)
         else (let sh = bit_length a - 53; q = round_half_even a (2 ^ sh)
               in if 2 ^ 1024 \<le> q * 2 ^ sh then Inl OverflowError
                  else Inr (Finite (n < 0) q (int sh))))"

text \<open>The format \<^verbatim>\<open>.1f\<close>: the exact value rounded to tenths, ties to even.\<close>

definition fixed1 :: "bool \<Rightarrow> nat \<Rightarrow> string" where
  "fixed1 neg tenths = (if neg then ''-'' else []) @ digits (tenths div 10) @ ''.'' @ digits (tenths mod 10)"

fun float_f1 :: "pyfloat \<Rightarrow> string" where
  "float_f1 (Finite s m e) =
     fixed1 s (if 0 \<le> e then 10 * m * 2 ^ nat e else round_half_even (10 * m) (2 ^ nat (- e)))"
| "float_f1 (Infinite s) = (if s then ''-inf'' else ''inf'')"
| "float_f1 NaN = ''nan''"

definition format_f1 :: "number \<Rightarrow> py_error + string" where
  "format_f1 x =
     (case x of
        IntNum n \<Rightarrow> (case int_to_float n of Inl e \<Rightarrow> Inl e | Inr f \<Rightarrow> Inr (float_f1 f))
      | FloatNum f \<Rightarrow> Inr (float_f1 f))"

text \<open>The format \<^verbatim>\<open>,\<close> of an int: groups of three digits.\<close>

fun commas :: "nat \<Rightarrow> string" where
  "commas n =
     (if n < 1000 then digits n
      else commas (n div 1000) @ '','' @
           [''0123456789'' ! (n mod 1000 div 100), ''0123456789'' ! (n mod 100 div 10),
            ''0123456789'' ! (n mod 10)])"

declare commas.simps [simp del]

definition format_comma :: "int \<Rightarrow> string" where
  "format_comma n = (if n < 0 then ''-'' else []) @ commas (nat \<bar>n\<bar>)"

subsection \<open>The templates\<close>

text \<open>
  The literal text of the three templates of \<^verbatim>\<open>render_html\<close>, cut at their fields:
  \<^verbatim>\<open>head\<close> around \<^verbatim>\<open>{esc(query)}\<close>, the card around its six fields, \<^verbatim>\<open>tail\<close> around \<^verbatim>\<open>{domain}\<close>.
\<close>

definition head_open :: string where
  \<open>head_open =
     ''\<newline>'' @
     ''<!doctype html>\<newline>'' @
     ''<html lang="en">\<newline>'' @
     ''<head>\<newline>'' @
     ''  <meta charset="utf-8" />\<newline>'' @
     ''  <meta name="viewport" content="width=device-width, initial-scale=1" />\<newline>'' @
     ''  <title>Rainforest Amazon Search</title>\<newline>'' @
     ''  <style>\<newline>'' @
     ''    :root {\<newline>'' @
     ''      --bg: #0f172a; /* slate-900 */\<newline>'' @
     ''      --card: #111827; /* gray-900 */\<newline>'' @
     ''      --muted: #94a3b8; /* slate-400 */\<newline>'' @
     ''      --fg: #e5e7eb; /* gray-200 */\<newline>'' @
     ''      --accent: #22c55e; /* green-500 */\<newline>'' @
     ''    }\<newline>'' @
     ''    * { box-sizing: border-box; }\<newline>'' @
     ''    body { margin: 0; font-family: ui-sans-serif, system-ui, -apple-system, Segoe UI, Roboto, Helvetica, Arial, Noto Sans, "Apple Color Emoji", "Segoe UI Emoji"; background: linear-gradient(180deg, #0f172a, #0b1023 50%, #0f172a); color: var(--fg); }\<newline>'' @
     ''    header { padding: 24px; text-align: center; border-bottom: 1px solid #1f2937; position: sticky; top: 0; backdrop-filter: blur(6px); background: rgba(15, 23, 42, 0.7); }\<newline>'' @
     ''    h1 { margin: 0; font-size: 20px; letter-spacing: 0.3px; }\<newline>'' @
     ''    .wrap { max-width: 1080px; margin: 24px auto; padding: 0 16px; }\<newline>'' @
     ''    form { display: flex; gap: 8px; margin-top: 12px; justify-content: center; }\<newline>'' @
     ''    input[type=text] { flex: 1; max-width: 520px; padding: 12px 14px; border-radius: 10px; border: 1px solid #374151; background: #0b1224; color: var(--fg); outline: none; }\<newline>'' @
     ''    input[type=text]:focus { border-color: var(--accent); box-shadow: 0 0 0 3px rgba(34,197,94,.15); }\<newline>'' @
     ''    button { padding: 12px 16px; border-radius: 10px; border: 1px solid #14532d; background: linear-gradient(180deg,#22c55e,#16a34a); color: white; cursor: pointer; }\<newline>'' @
     ''    .grid { display: grid; grid-template-columns: repeat(auto-fit, minmax(240px, 1fr)); gap: 16px; margin-top: 20px; }\<newline>'' @
     ''    .card { background: radial-gradient(1200px 600px at 20% -10%, rgba(34,197,94,0.08), transparent), var(--card); border: 1px solid #1f2937; border-radius: 14px; padding: 14px; transition: transform .12s ease, border-color .12s ease; }\<newline>'' @
     ''    .card:hover { transform: translateY(-2px); border-color: #374151; }\<newline>'' @
     ''    .title { font-size: 14px; line-height: 1.3; margin: 8px 0; min-height: 3.2em; }\<newline>'' @
     ''    .meta { color: var(--muted); font-size: 12px; display: flex; gap: 10px; align-items: center; }\<newline>'' @
     ''    .price { color: #fbbf24; font-weight: 600; }\<newline>'' @
     ''    .imgwrap { display: flex; align-items: center; justify-content: center; background: #ffffff; border: 1px solid #1f2937; border-radius: 10px; height: 180px; overflow: hidden; }\<newline>'' @
     ''    .imgwrap img { max-height: 160px; max-width: 100%; object-fit: contain; }\<newline>'' @
     ''    footer { text-align: center; color: var(--muted); font-size: 12px; padding: 24px; }\<newline>'' @
     ''    .error { color: #fecaca; background: #7f1d1d; border: 1px solid #b91c1c; padding: 10px 12px; border-radius: 10px; margin: 16px auto; max-width: 720px; }\<newline>'' @
     ''  </style>\<newline>'' @
     ''</head>\<newline>'' @
     ''<body>\<newline>'' @
     ''  <header>\<newline>'' @
     ''    <h1>Rainforest Amazon Search</h1>\<newline>'' @
     ''    <form method="GET" action="/">\<newline>'' @
     ''      <input type="text" name="q" placeholder="Search Amazon'' @
     [CHR 0xE2, CHR 0x80, CHR 0xA6] @
     ''" value="''\<close>

definition head_close :: string where
  \<open>head_close =
     ''" />\<newline>'' @
     ''      <button type="submit">Search</button>\<newline>'' @
     ''    </form>\<newline>'' @
     ''  </header>\<newline>'' @
     ''  <div class="wrap">\<newline>''\<close>

definition card_a :: string where
  \<open>card_a =
     ''\<newline>'' @
     ''                <a class="card" href="''\<close>

definition card_b :: string where
  \<open>card_b =
     ''" target="_blank" rel="noopener noreferrer">\<newline>'' @
     ''                  <div class="imgwrap">''\<close>

definition card_c :: string where
  \<open>card_c =
     ''</div>\<newline>'' @
     ''                  <div class="title">''\<close>

definition card_d :: string where
  \<open>card_d =
     ''</div>\<newline>'' @
     ''                  <div class="meta">\<newline>'' @
     ''                    <span class="price">''\<close>

definition card_e :: string where
  \<open>card_e =
     ''</span>\<newline>'' @
     ''                    <span>ASIN: ''\<close>

definition card_f :: string where
  \<open>card_f =
     ''</span>\<newline>'' @
     ''                    ''\<close>

definition card_g :: string where
  \<open>card_g =
     ''\<newline>'' @
     ''                  </div>\<newline>'' @
     ''                </a>\<newline>'' @
     ''                ''\<close>

definition tail_open :: string where
  \<open>tail_open =
     ''\<newline>'' @
     ''  </div>\<newline>'' @
     ''  <footer>\<newline>'' @
     ''    Powered by Rainforest API '' @
     [CHR 0xE2, CHR 0x80, CHR 0xA2] @
     '' Domain: ''\<close>

definition tail_close :: string where
  \<open>tail_close =
     ''\<newline>'' @
     ''  </footer>\<newline>'' @
     ''</body>\<newline>'' @
     ''</html>\<newline>''\<close>

text \<open>The short literals of lines 159, 174 and 178 and the closing tag of line 192.\<close>

definition IMG_OPEN :: string where \<open>IMG_OPEN = ''<img src="''\<close>
definition IMG_ALT :: string where \<open>IMG_ALT = ''" alt="''\<close>
definition IMG_CLOSE :: string where \<open>IMG_CLOSE = ''">''\<close>
definition IMG_NONE :: string where \<open>IMG_NONE = ''<div style="height:1px"></div>''\<close>
definition RATING_MID :: string where "RATING_MID = ''</span> <span>(''"
definition RATING_CLOSE :: string where "RATING_CLOSE = '')</span>''"
definition DIV_CLOSE :: string where "DIV_CLOSE = ''</div>''"

definition star :: string where
  "star = [CHR 0xE2, CHR 0x98, CHR 0x85]"

definition NO_RESULTS :: string where
  \<open>NO_RESULTS = ''<p class="meta">No results found.</p>''\<close>

definition ERROR_OPEN :: string where
  \<open>ERROR_OPEN = ''<div class="error">''\<close>

definition GRID_OPEN :: string where
  \<open>GRID_OPEN = ''<div class="grid">''\<close>

definition RATING_OPEN :: string where
  "RATING_OPEN = ''<span>'' @ star @ '' ''"

subsection \<open>The cards\<close>

text \<open>Lines 171 to 177.\<close>

definition rating_text :: "json \<Rightarrow> json \<Rightarrow> py_error + string" where
  "rating_text rating ratings_total =
     (case as_number rating of
        None \<Rightarrow> Inr []
      | Some x \<Rightarrow>
          (case as_int ratings_total of
             None \<Rightarrow> Inr []
           | Some n \<Rightarrow>
               (case format_f1 x of
                  Inl e \<Rightarrow> Inl e
                | Inr a \<Rightarrow> Inr (RATING_OPEN @ a @ RATING_MID @ format_comma n @ RATING_CLOSE))))"

text \<open>Line 178.\<close>

definition img_html :: "json \<Rightarrow> string \<Rightarrow> py_error + string" where
  \<open>img_html image' title =
     (if truthy image' then
        (case escape_value image' of
           Inl e \<Rightarrow> Inl e
         | Inr src \<Rightarrow> Inr (IMG_OPEN @ src @ IMG_ALT @ title @ IMG_CLOSE))
      else Inr IMG_NONE)\<close>

text \<open>The body of the loop over \<^verbatim>\<open>results\<close>, lines 166 to 191: the string appended for one result.\<close>

definition result_card :: "(json \<Rightarrow> string) \<Rightarrow> pydict \<Rightarrow> py_error + string" where
  "result_card rp r =
     (let title = html_escape (py_str rp (dict_get_default r ''title'' (JStr [])));
          asin = html_escape (py_str rp (dict_get_default r ''asin'' (JStr [])));
          link = py_or (dict_get r ''link'') (JStr ''#'');
          image' = py_or (dict_get r ''image'') (JStr []);
          price = html_escape (py_str rp (dict_get_default r ''price'' (JStr [])))
      in case rating_text (dict_get r ''rating'') (dict_get r ''ratings_total'') of
           Inl e \<Rightarrow> Inl e
         | Inr rating \<Rightarrow>
             (case img_html image' title of
                Inl e \<Rightarrow> Inl e
              | Inr img \<Rightarrow>
                  (case escape_value link of
                     Inl e \<Rightarrow> Inl e
                   | Inr href \<Rightarrow>
                       Inr (card_a @ href @ card_b @ img @ card_c @ title @ card_d @ price @
                            card_e @ asin @ card_f @ rating @ card_g))))"

fun cards :: "(json \<Rightarrow> string) \<Rightarrow> pydict list \<Rightarrow> py_error + string list" where
  "cards rp [] = Inr []"
| "cards rp (r # rs) =
     (case result_card rp r of
        Inl e \<Rightarrow> Inl e
      | Inr c \<Rightarrow> (case cards rp rs of Inl e \<Rightarrow> Inl e | Inr cs \<Rightarrow> Inr (c # cs)))"

subsection \<open>The page\<close>

text \<open>\<^verbatim>\<open>if error:\<close> holds for a string that is not empty.\<close>

definition error_banner :: "string option \<Rightarrow> string list" where
  "error_banner err =
     (case err of
        None \<Rightarrow> []
      | Some e \<Rightarrow> if e = [] then [] else [ERROR_OPEN @ html_escape e @ DIV_CLOSE])"

definition render_html ::
  "config \<Rightarrow> (json \<Rightarrow> string) \<Rightarrow> string \<Rightarrow> pydict list \<Rightarrow> string option \<Rightarrow> py_error + string" where
  "render_html cfg rp query rs err =
     (let head = head_open @ html_escape query @ head_close;
          tail = tail_open @ html_escape (AMAZON_DOMAIN cfg) @ tail_close
      in if rs = [] then Inr (head @ concat (error_banner err @ [NO_RESULTS]) @ tail)
         else (case cards rp rs of
                 Inl e \<Rightarrow> Inl e
               | Inr cs \<Rightarrow>
                   Inr (head @ concat (error_banner err @ [GRID_OPEN] @ cs @ [DIV_CLOSE]) @ tail)))"


section \<open>Handler.do_GET\<close>









record http_response =
  status :: nat
  headers :: "(string \<times> string) list"
  body :: string



section \<open>The specification's reading of the rating test\<close>

text \<open>
  "Rating is numeric" and "ratingsTotal is an integer", read on the JSON value: a number,
  and a number without a fraction part. \<^verbatim>\<open>true\<close> and \<^verbatim>\<open>false\<close> are neither.
\<close>

definition spec_numeric :: "json \<Rightarrow> bool" where
  "spec_numeric v = (case v of JInt n \<Rightarrow> True | JFloat f \<Rightarrow> True | _ \<Rightarrow> False)"

definition spec_integer :: "json \<Rightarrow> bool" where
  "spec_integer v = (case v of JInt n \<Rightarrow> True | _ \<Rightarrow> False)"

section \<open>Occurrences of a tag in a page\<close>

text \<open>
  \<open>agrees pat t\<close>: the text \<open>t\<close> matches the pattern \<open>pat\<close> as far as the shorter of the two
  goes. \<open>free_of pat t\<close>: at no \<^verbatim>\<open><\<close> of \<open>t\<close> does the rest of \<open>t\<close> agree with \<open>pat\<close>; for a pattern
  that starts with \<^verbatim>\<open><\<close> this is kept by concatenation and excludes the pattern as a
  substring.
\<close>

fun agrees :: "string \<Rightarrow> string \<Rightarrow> bool" where
  "agrees [] t = True"
| "agrees (p # ps) [] = True"
| "agrees (p # ps) (c # cs) = (p = c \<and> agrees ps cs)"

fun free_of :: "string \<Rightarrow> string \<Rightarrow> bool" where
  "free_of pat [] = True"
| "free_of pat (c # cs) = ((if c = CHR ''<'' then \<not> agrees pat (c # cs) else True) \<and> free_of pat cs)"

text \<open>The characters of a formatted number, and the templates of a card and of a rating.\<close>

definition figure_chars :: "char set" where
  "figure_chars = set ''0123456789.,-infa''"

definition card_templates :: "string list" where
  "card_templates = [card_a, card_b, card_c, card_d, card_e, card_f, card_g,
                     IMG_OPEN, IMG_ALT, IMG_CLOSE, IMG_NONE]"

definition rating_templates :: "string list" where
  "rating_templates = [RATING_OPEN, RATING_MID, RATING_CLOSE]"

section \<open>A page as pieces\<close>

text \<open>
  The statement of the escaping property reads a page as a sequence of pieces: markup taken
  from the fixed templates, externally sourced text passed through \<^verbatim>\<open>html.escape\<close>, and
  formatted numbers. \<open>sources\<close> lists the external strings of a call: the query, the
  configured domain, the error, and for each result its title, asin and price as \<^verbatim>\<open>str\<close>
  gives them and its link and image.
\<close>

datatype piece = Markup string | Data string | Figure string

fun piece_text :: "piece \<Rightarrow> string" where
  "piece_text (Markup t) = t"
| "piece_text (Data s) = html_escape s"
| "piece_text (Figure t) = t"

definition page_templates :: "string list" where
  "page_templates = [head_open, head_close, tail_open, tail_close, GRID_OPEN, DIV_CLOSE,
                     ERROR_OPEN, NO_RESULTS]"

definition MARKUP :: "string list" where
  "MARKUP = page_templates @ card_templates @ rating_templates"

definition card_sources :: "(json \<Rightarrow> string) \<Rightarrow> pydict \<Rightarrow> string list" where
  "card_sources rp r =
     [py_str rp (dict_get_default r ''title'' (JStr [])),
      py_str rp (dict_get_default r ''asin'' (JStr [])),
      py_str rp (dict_get_default r ''price'' (JStr []))] @
     (case py_or (dict_get r ''link'') (JStr ''#'') of JStr s \<Rightarrow> [s] | _ \<Rightarrow> []) @
     (case py_or (dict_get r ''image'') (JStr []) of JStr s \<Rightarrow> [s] | _ \<Rightarrow> [])"

definition sources ::
  "config \<Rightarrow> (json \<Rightarrow> string) \<Rightarrow> string \<Rightarrow> pydict list \<Rightarrow> string option \<Rightarrow> string list" where
  "sources cfg rp query rs err =
     [query, AMAZON_DOMAIN cfg] @ (case err of None \<Rightarrow> [] | Some e \<Rightarrow> [e]) @
     concat (map (card_sources rp) rs)"

fun ok_piece :: "string set \<Rightarrow> piece \<Rightarrow> bool" where
  "ok_piece S (Markup t) = (t \<in> set MARKUP)"
| "ok_piece S (Data s) = (s \<in> S)"
| "ok_piece S (Figure t) = (set t \<subseteq> figure_chars)"

definition SCRIPT :: string where
  "SCRIPT = ''<script''"

section \<open>The specification's price rule\<close>

text \<open>
  The rule of section 4.2 of the specification, in its words: (a) the nested \<^verbatim>\<open>raw\<close> of \<^verbatim>\<open>price\<close>
  if \<^verbatim>\<open>price\<close> is an object, (b) otherwise the nested \<^verbatim>\<open>raw\<close> of the first entry of \<^verbatim>\<open>prices\<close> if
  that list is not empty, (c) otherwise the empty string.
\<close>

definition spec_price :: "pydict \<Rightarrow> json" where
  "spec_price item =
     (case dict_get item ''price'' of
        JObj p \<Rightarrow> dict_get p ''raw''
      | _ \<Rightarrow> (case dict_get item ''prices'' of
                JList (JObj q # rest) \<Rightarrow> dict_get q ''raw''
              | _ \<Rightarrow> JStr []))"

text \<open>
  The rule as the code has it: (a) applies when \<^verbatim>\<open>price\<close> is an object whose \<^verbatim>\<open>raw\<close> is truthy,
  (b) otherwise, with an empty \<^verbatim>\<open>raw\<close> there read as the empty string.
\<close>

definition resolved_price :: "pydict \<Rightarrow> json" where
  "resolved_price item =
     (let a = (case dict_get item ''price'' of JObj p \<Rightarrow> dict_get p ''raw'' | _ \<Rightarrow> JNull)
      in if truthy a then a
         else (case dict_get item ''prices'' of
                 JList (JObj q # rest) \<Rightarrow> py_or (dict_get q ''raw'') (JStr [])
               | _ \<Rightarrow> JStr []))"

text \<open>
  The one place where the loop body calls a method on a nested value without testing its
  type: the first entry of a non-empty \<^verbatim>\<open>prices\<close> list. The predicate holds of the objects
  that have an object there, or no such entry.
\<close>

definition first_price_is_object :: "pydict \<Rightarrow> bool" where
  "first_price_is_object d =
     (case dict_get d ''prices'' of
        JList (JObj q # rest) \<Rightarrow> True
      | JList (other # rest) \<Rightarrow> False
      | _ \<Rightarrow> True)"

section \<open>Properties of search_rainforest\<close>

lemma dict_get_simps:
  "dict_get [] k = JNull"
  "dict_get ((k', v) # d) k = (if k' = k then v else dict_get d k)"
  by (simp_all add: dict_get_def dict_get_default_def)

subsection \<open>The missing credential\<close>

text \<open>
  C7: when the API key is not configured (unset or empty), for every query the function
  returns the outcome with no results and the fixed missing-credential message, and opens no
  URL.
\<close>

theorem missing_key_no_fetch:
  "key_missing cfg \<Longrightarrow>
   search_rainforest cfg rp net query max_items =
     (Inr \<lparr>results = [], error = Some ''Missing RAINFOREST_API_KEY environment variable.''\<rparr>, [])"
  by (simp add: key_missing_def search_rainforest_def split: option.splits)

theorem missing_key_no_fetch_witness:
  "key_missing \<lparr>RAINFOREST_API_KEY = None, AMAZON_DOMAIN = ''amazon.com''\<rparr> \<and>
   search_rainforest \<lparr>RAINFOREST_API_KEY = None, AMAZON_DOMAIN = ''amazon.com''\<rparr>
       (\<lambda>v. []) (\<lambda>u. URLError ''unreachable'') ''nintendo switch'' 10 =
     (Inr \<lparr>results = [], error = Some ''Missing RAINFOREST_API_KEY environment variable.''\<rparr>, [])"
proof -
  have k: "key_missing \<lparr>RAINFOREST_API_KEY = None, AMAZON_DOMAIN = ''amazon.com''\<rparr>"
    by (simp add: key_missing_def)
  from k missing_key_no_fetch [OF k] show ?thesis by simp
qed

subsection \<open>Normalisation\<close>

lemma price_raw_of_ok:
  assumes "first_price_is_object d"
  shows "\<exists>v. price_raw_of d = Inr v"
  using assms
  by (auto simp: price_raw_of_def py_get_def first_price_is_object_def Let_def
           split: json.splits list.splits)

text \<open>
  What holds of the loop body: an object whose \<^verbatim>\<open>prices\<close> list, when it has entries, starts with
  an object normalises to the seven fields, each absent field giving its documented default
  (for an absent link, the link made from the asin when there is one); the empty object
  gives the placeholder title, empty asin, link, image and price, and null rating and
  ratings_total.
\<close>

lemma normalize_defaults:
  assumes "first_price_is_object d"
  shows "(\<exists>r. normalize_item rp (JObj d) = Inr r \<and>
            map fst r = [''title'', ''asin'', ''link'', ''image'', ''price'', ''rating'', ''ratings_total''] \<and>
            (map_of d ''title'' = None \<longrightarrow> dict_get r ''title'' = JStr ''(no title)'') \<and>
            (map_of d ''asin'' = None \<longrightarrow> dict_get r ''asin'' = JStr []) \<and>
            (map_of d ''link'' = None \<longrightarrow>
               dict_get r ''link'' =
                 (if truthy (dict_get r ''asin'')
                  then JStr (''https://www.amazon.com/dp/'' @ py_str rp (dict_get r ''asin''))
                  else JStr [])) \<and>
            (map_of d ''image'' = None \<longrightarrow> dict_get r ''image'' = JStr []) \<and>
            (map_of d ''price'' = None \<and> map_of d ''prices'' = None \<longrightarrow> dict_get r ''price'' = JStr []) \<and>
            (map_of d ''rating'' = None \<longrightarrow> dict_get r ''rating'' = JNull) \<and>
            (map_of d ''ratings_total'' = None \<longrightarrow> dict_get r ''ratings_total'' = JNull))
         \<and> normalize_item rp (JObj []) =
             Inr [(''title'', JStr ''(no title)''), (''asin'', JStr []), (''link'', JStr []),
                  (''image'', JStr []), (''price'', JStr []), (''rating'', JNull),
                  (''ratings_total'', JNull)]"
proof
  obtain v where v: "price_raw_of d = Inr v" using price_raw_of_ok [OF assms] by blast
  have absent: "map_of d ''price'' = None \<Longrightarrow> map_of d ''prices'' = None \<Longrightarrow> v = JNull"
    using v by (simp add: price_raw_of_def dict_get_def dict_get_default_def)
  show "\<exists>r. normalize_item rp (JObj d) = Inr r \<and>
            map fst r = [''title'', ''asin'', ''link'', ''image'', ''price'', ''rating'', ''ratings_total''] \<and>
            (map_of d ''title'' = None \<longrightarrow> dict_get r ''title'' = JStr ''(no title)'') \<and>
            (map_of d ''asin'' = None \<longrightarrow> dict_get r ''asin'' = JStr []) \<and>
            (map_of d ''link'' = None \<longrightarrow>
               dict_get r ''link'' =
                 (if truthy (dict_get r ''asin'')
                  then JStr (''https://www.amazon.com/dp/'' @ py_str rp (dict_get r ''asin''))
                  else JStr [])) \<and>
            (map_of d ''image'' = None \<longrightarrow> dict_get r ''image'' = JStr []) \<and>
            (map_of d ''price'' = None \<and> map_of d ''prices'' = None \<longrightarrow> dict_get r ''price'' = JStr []) \<and>
            (map_of d ''rating'' = None \<longrightarrow> dict_get r ''rating'' = JNull) \<and>
            (map_of d ''ratings_total'' = None \<longrightarrow> dict_get r ''ratings_total'' = JNull)"
    using v absent
    by (auto simp: normalize_item_def Let_def dict_get_simps py_or_def dict_get_def [of d]
                   dict_get_default_def)
  show "normalize_item rp (JObj []) =
             Inr [(''title'', JStr ''(no title)''), (''asin'', JStr []), (''link'', JStr []),
                  (''image'', JStr []), (''price'', JStr []), (''rating'', JNull),
                  (''ratings_total'', JNull)]"
    by (simp add: normalize_item_def price_raw_of_def Let_def dict_get_simps py_or_def)
qed

lemma normalize_defaults_example:
  "first_price_is_object [(''asin'', JStr ''B000X'')] \<and>
   (\<exists>r. normalize_item (\<lambda>v. []) (JObj [(''asin'', JStr ''B000X'')]) = Inr r \<and>
        dict_get r ''title'' = JStr ''(no title)'' \<and> dict_get r ''image'' = JStr [] \<and>
        dict_get r ''link'' = JStr ''https://www.amazon.com/dp/B000X'' \<and>
        dict_get r ''price'' = JStr [] \<and> dict_get r ''rating'' = JNull)"
proof -
  have h: "first_price_is_object [(''asin'', JStr ''B000X'')]"
    by (simp add: first_price_is_object_def dict_get_simps)
  have n: "normalize_item (\<lambda>v. []) (JObj [(''asin'', JStr ''B000X'')]) =
             Inr [(''title'', JStr ''(no title)''), (''asin'', JStr ''B000X''),
                  (''link'', JStr ''https://www.amazon.com/dp/B000X''), (''image'', JStr []),
                  (''price'', JStr []), (''rating'', JNull), (''ratings_total'', JNull)]"
    by (simp add: normalize_item_def price_raw_of_def Let_def dict_get_simps py_or_def)
  from normalize_defaults [OF h, of "\<lambda>v. []"] n h show ?thesis
    by (simp add: dict_get_simps)
qed

text \<open>
  C2 asks that normalising succeeds for every raw item that is an object. Line 91 calls
  \<^verbatim>\<open>.get\<close> on the first entry of \<^verbatim>\<open>prices\<close> after testing only that \<^verbatim>\<open>prices\<close> is a list that is
  not empty: for the object with \<^verbatim>\<open>prices\<close> a list of one string the call raises AttributeError,
  and a batch that holds such an item after a good one is lost with it.
\<close>

theorem price_entry_not_object_raises:
  "normalize_item (\<lambda>v. []) (JObj [(''prices'', JList [JStr ''$5''])]) = Inl AttributeError \<and>
   fst (search_rainforest \<lparr>RAINFOREST_API_KEY = Some ''k'', AMAZON_DOMAIN = ''amazon.com''\<rparr>
          (\<lambda>v. [])
          (\<lambda>u. Body (JObj [(''search_results'',
                              JList [JObj [(''title'', JStr ''Xbox'')],
                                     JObj [(''prices'', JList [JStr ''$5''])]])]))
          ''latest xbox'' 10) = Inl AttributeError"
  by (simp add: search_rainforest_def clean_results_def sliced_items_def slice_to_def
                dict_get_default_def normalize_item_def price_raw_of_def py_get_def py_or_def
                dict_get_simps Let_def)

subsection \<open>The price\<close>

lemma price_field:
  "normalize_item rp (JObj d) = Inr r \<Longrightarrow>
   \<exists>v. price_raw_of d = Inr v \<and> dict_get r ''price'' = py_or v (JStr [])"
  by (auto simp: normalize_item_def Let_def dict_get_simps split: sum.splits)

text \<open>
  C3, as amended: the normalised price is (a) the nested \<^verbatim>\<open>raw\<close> of \<^verbatim>\<open>price\<close> if \<^verbatim>\<open>price\<close> is an
  object and that \<^verbatim>\<open>raw\<close> is present and not empty, (b) otherwise the nested \<^verbatim>\<open>raw\<close> of the first
  entry of \<^verbatim>\<open>prices\<close> if that list is not empty, (c) otherwise the empty string. The two
  examples of the specification hold: with both shapes present and \<^verbatim>\<open>$10\<close> under \<^verbatim>\<open>price\<close> the
  price is \<^verbatim>\<open>$10\<close>, and with \<^verbatim>\<open>prices\<close> alone it is \<^verbatim>\<open>$5\<close>.
\<close>

theorem price_resolution:
  "(normalize_item rp (JObj d) = Inr r \<longrightarrow> dict_get r ''price'' = resolved_price d) \<and>
   (\<exists>r1. normalize_item rp (JObj [(''price'', JObj [(''raw'', JStr ''$10'')]),
                                   (''prices'', JList [JObj [(''raw'', JStr ''$5'')]])]) = Inr r1 \<and>
          dict_get r1 ''price'' = JStr ''$10'') \<and>
   (\<exists>r2. normalize_item rp (JObj [(''prices'', JList [JObj [(''raw'', JStr ''$5'')]])]) = Inr r2 \<and>
          dict_get r2 ''price'' = JStr ''$5'')"
proof (intro conjI impI)
  assume "normalize_item rp (JObj d) = Inr r"
  then obtain v where v: "price_raw_of d = Inr v" and p: "dict_get r ''price'' = py_or v (JStr [])"
    using price_field by blast
  from v have "py_or v (JStr []) = resolved_price d"
    by (auto simp: price_raw_of_def resolved_price_def Let_def py_get_def py_or_def
             split: json.splits list.splits if_splits)
  with p show "dict_get r ''price'' = resolved_price d" by simp
next
  show "\<exists>r1. normalize_item rp (JObj [(''price'', JObj [(''raw'', JStr ''$10'')]),
                                   (''prices'', JList [JObj [(''raw'', JStr ''$5'')]])]) = Inr r1 \<and>
          dict_get r1 ''price'' = JStr ''$10''"
    by (simp add: normalize_item_def price_raw_of_def Let_def dict_get_simps py_or_def py_get_def)
next
  show "\<exists>r2. normalize_item rp (JObj [(''prices'', JList [JObj [(''raw'', JStr ''$5'')]])]) = Inr r2 \<and>
          dict_get r2 ''price'' = JStr ''$5''"
    by (simp add: normalize_item_def price_raw_of_def Let_def dict_get_simps py_or_def py_get_def)
qed

theorem price_resolution_witness:
  "normalize_item (\<lambda>v. []) (JObj [(''price'', JObj []), (''prices'', JList [JObj [(''raw'', JStr ''$7'')]])])
     = Inr [(''title'', JStr ''(no title)''), (''asin'', JStr []), (''link'', JStr []),
            (''image'', JStr []), (''price'', JStr ''$7''), (''rating'', JNull), (''ratings_total'', JNull)]
   \<and> dict_get [(''title'', JStr ''(no title)''), (''asin'', JStr []), (''link'', JStr []),
            (''image'', JStr []), (''price'', JStr ''$7''), (''rating'', JNull), (''ratings_total'', JNull)] ''price''
       = resolved_price [(''price'', JObj []), (''prices'', JList [JObj [(''raw'', JStr ''$7'')]])]"
proof -
  have n: "normalize_item (\<lambda>v. []) (JObj [(''price'', JObj []), (''prices'', JList [JObj [(''raw'', JStr ''$7'')]])])
     = Inr [(''title'', JStr ''(no title)''), (''asin'', JStr []), (''link'', JStr []),
            (''image'', JStr []), (''price'', JStr ''$7''), (''rating'', JNull), (''ratings_total'', JNull)]"
    by (simp add: normalize_item_def price_raw_of_def Let_def dict_get_simps py_or_def py_get_def)
  from n price_resolution [THEN conjunct1, rule_format, OF n] show ?thesis by simp
qed

text \<open>
  C3 as the specification states it fails where \<^verbatim>\<open>price\<close> is an object with an empty \<^verbatim>\<open>raw\<close> and
  \<^verbatim>\<open>prices\<close> is present: rule (a) would give the empty string, the code gives \<^verbatim>\<open>$5\<close>.
\<close>

theorem price_precedence_counterexample:
  "normalize_item (\<lambda>v. []) (JObj [(''price'', JObj [(''raw'', JStr [])]),
                                   (''prices'', JList [JObj [(''raw'', JStr ''$5'')]])])
     = Inr [(''title'', JStr ''(no title)''), (''asin'', JStr []), (''link'', JStr []),
            (''image'', JStr []), (''price'', JStr ''$5''), (''rating'', JNull), (''ratings_total'', JNull)]
   \<and> spec_price [(''price'', JObj [(''raw'', JStr [])]),
                 (''prices'', JList [JObj [(''raw'', JStr ''$5'')]])] = JStr []"
  by (simp add: normalize_item_def price_raw_of_def spec_price_def Let_def dict_get_simps py_or_def
                py_get_def)

text \<open>
  C10: when \<^verbatim>\<open>price\<close> is an object whose \<^verbatim>\<open>raw\<close> is missing or empty (falsy) and \<^verbatim>\<open>prices\<close> is a list
  that starts with an object, the normalised price is read from that first entry.
\<close>

theorem price_fallback_on_falsy:
  assumes "dict_get d ''price'' = JObj p"
      and "\<not> truthy (dict_get p ''raw'')"
      and "dict_get d ''prices'' = JList (JObj q # rest)"
  shows "\<exists>r. normalize_item rp (JObj d) = Inr r \<and>
             dict_get r ''price'' = py_or (dict_get q ''raw'') (JStr [])"
  using assms
  by (simp add: normalize_item_def price_raw_of_def Let_def dict_get_simps py_get_def)

theorem price_fallback_on_falsy_witness:
  "dict_get [(''price'', JObj [(''raw'', JStr [])]), (''prices'', JList [JObj [(''raw'', JStr ''$5'')]])] ''price''
      = JObj [(''raw'', JStr [])] \<and>
   \<not> truthy (dict_get [(''raw'', JStr [])] ''raw'') \<and>
   dict_get [(''price'', JObj [(''raw'', JStr [])]), (''prices'', JList [JObj [(''raw'', JStr ''$5'')]])] ''prices''
      = JList (JObj [(''raw'', JStr ''$5'')] # []) \<and>
   (\<exists>r. normalize_item (\<lambda>v. []) (JObj [(''price'', JObj [(''raw'', JStr [])]),
               (''prices'', JList [JObj [(''raw'', JStr ''$5'')]])]) = Inr r \<and>
        dict_get r ''price'' = JStr ''$5'')"
proof -
  have a: "dict_get [(''price'', JObj [(''raw'', JStr [])]), (''prices'', JList [JObj [(''raw'', JStr ''$5'')]])] ''price''
      = JObj [(''raw'', JStr [])]" by (simp add: dict_get_simps)
  have b: "\<not> truthy (dict_get [(''raw'', JStr [])] ''raw'')" by (simp add: dict_get_simps)
  have c: "dict_get [(''price'', JObj [(''raw'', JStr [])]), (''prices'', JList [JObj [(''raw'', JStr ''$5'')]])] ''prices''
      = JList (JObj [(''raw'', JStr ''$5'')] # [])" by (simp add: dict_get_simps)
  from price_fallback_on_falsy [OF a b c, of "\<lambda>v. []"] a b c show ?thesis
    by (simp add: dict_get_simps py_or_def)
qed

subsection \<open>Truncation\<close>

lemma normalize_all_map:
  "normalize_all rp items = Inr cleaned \<Longrightarrow> map Inr cleaned = map (normalize_item rp) items"
  by (induction items arbitrary: cleaned) (auto split: sum.splits)

lemma normalize_all_length:
  "normalize_all rp items = Inr cleaned \<Longrightarrow> length cleaned = length items"
  using normalize_all_map [of rp items cleaned] by (metis length_map)

lemma slice_to_nonneg: "0 \<le> k \<Longrightarrow> slice_to xs k = take (nat k) xs"
  by (simp add: slice_to_def)

lemma clean_results_bound:
  assumes "0 \<le> max_items" and "clean_results rp data max_items = Inr out"
  shows "length (results out) \<le> nat max_items"
  using assms
  by (auto simp: clean_results_def sliced_items_def slice_to_nonneg
           split: json.splits sum.splits dest!: normalize_all_length)

lemma clean_results_order:
  assumes "0 \<le> max_items" and "clean_results rp (JObj d) max_items = Inr out"
      and "map_of d ''search_results'' = Some (JList raw)"
  shows "map Inr (results out) = map (normalize_item rp) (take (nat max_items) raw)"
  using assms
  by (auto simp: clean_results_def sliced_items_def slice_to_nonneg dict_get_default_def
           split: sum.splits dest!: normalize_all_map)

text \<open>
  C4: for every bound \<^verbatim>\<open>max_items\<close> that is not negative, an outcome the function returns has at
  most that many results; when the document is an object whose \<^verbatim>\<open>search_results\<close> is a list,
  the results are the normalised first \<open>min (length raw) max_items\<close> items, in the order
  of the list.
\<close>

theorem results_truncated_in_order:
  assumes "0 \<le> max_items"
      and "fst (search_rainforest cfg rp net query max_items) = Inr out"
  shows "length (results out) \<le> nat max_items \<and>
         (\<forall>key d raw. RAINFOREST_API_KEY cfg = Some key \<and> key \<noteq> [] \<and>
                      net (request_url cfg key query) = Body (JObj d) \<and>
                      map_of d ''search_results'' = Some (JList raw) \<longrightarrow>
            map Inr (results out) = map (normalize_item rp) (take (nat max_items) raw) \<and>
            length (results out) = min (length raw) (nat max_items))"
proof
  show "length (results out) \<le> nat max_items"
    using assms clean_results_bound [OF assms(1)]
    by (auto simp: search_rainforest_def Let_def split: option.splits if_splits response.splits)
next
  show "\<forall>key d raw. RAINFOREST_API_KEY cfg = Some key \<and> key \<noteq> [] \<and>
                      net (request_url cfg key query) = Body (JObj d) \<and>
                      map_of d ''search_results'' = Some (JList raw) \<longrightarrow>
            map Inr (results out) = map (normalize_item rp) (take (nat max_items) raw) \<and>
            length (results out) = min (length raw) (nat max_items)"
  proof (intro allI impI)
    fix key d raw
    assume h: "RAINFOREST_API_KEY cfg = Some key \<and> key \<noteq> [] \<and>
                      net (request_url cfg key query) = Body (JObj d) \<and>
                      map_of d ''search_results'' = Some (JList raw)"
    with assms(2) have c: "clean_results rp (JObj d) max_items = Inr out"
      by (simp add: search_rainforest_def Let_def)
    have m: "map Inr (results out) = map (normalize_item rp) (take (nat max_items) raw)"
      using clean_results_order [OF assms(1) c] h by simp
    have "length (map Inr (results out) :: (py_error + pydict) list) = length (map (normalize_item rp) (take (nat max_items) raw))"
      using m by simp
    then have "length (results out) = min (length raw) (nat max_items)" by simp
    with m show "map Inr (results out) = map (normalize_item rp) (take (nat max_items) raw) \<and>
            length (results out) = min (length raw) (nat max_items)" by simp
  qed
qed

lemma digits_nonempty: "digits n \<noteq> []"
  by (subst digits.simps) simp

lemma normalize_asin_only:
  "s \<noteq> [] \<Longrightarrow>
   normalize_item rp (JObj [(''asin'', JStr s)]) =
     Inr [(''title'', JStr ''(no title)''), (''asin'', JStr s),
          (''link'', JStr (''https://www.amazon.com/dp/'' @ s)), (''image'', JStr []),
          (''price'', JStr []), (''rating'', JNull), (''ratings_total'', JNull)]"
  by (simp add: normalize_item_def price_raw_of_def Let_def dict_get_simps py_or_def)

theorem results_truncated_in_order_witness:
  "(0::int) \<le> 10 \<and>
   (\<exists>out. fst (search_rainforest \<lparr>RAINFOREST_API_KEY = Some ''k'', AMAZON_DOMAIN = ''amazon.com''\<rparr>
                 (\<lambda>v. [])
                 (\<lambda>u. Body (JObj [(''search_results'', JList (map (\<lambda>i. JObj [(''asin'', JStr (digits i))]) [0..<25]))]))
                 ''latest xbox'' 10) = Inr out \<and>
          length (results out) = 10 \<and>
          map (\<lambda>r. dict_get r ''asin'') (results out) = map (\<lambda>i. JStr (digits i)) [0..<10])"
proof -
  let ?cfg = "\<lparr>RAINFOREST_API_KEY = Some ''k'', AMAZON_DOMAIN = ''amazon.com''\<rparr>"
  let ?item = "\<lambda>i. JObj [(''asin'', JStr (digits i))]"
  let ?raw = "map ?item [0..<25]"
  let ?d = "[(''search_results'', JList ?raw)]"
  let ?net = "\<lambda>u::string. Body (JObj ?d)"
  have tk: "take 10 ?raw = map ?item [0..<10]"
    by (simp add: take_map)
  have all: "normalize_all (\<lambda>v. []) (map ?item ns) =
               Inr (map (\<lambda>i. [(''title'', JStr ''(no title)''), (''asin'', JStr (digits i)),
                     (''link'', JStr (''https://www.amazon.com/dp/'' @ digits i)), (''image'', JStr []),
                     (''price'', JStr []), (''rating'', JNull), (''ratings_total'', JNull)]) ns)" for ns
    by (induction ns) (simp_all add: normalize_asin_only digits_nonempty)
  have ev: "\<exists>out. fst (search_rainforest ?cfg (\<lambda>v. []) ?net ''latest xbox'' 10) = Inr out"
    using tk all [of "[0..<10]"]
    by (simp add: search_rainforest_def clean_results_def sliced_items_def slice_to_def
                  dict_get_default_def Let_def)
  then obtain out where out: "fst (search_rainforest ?cfg (\<lambda>v. []) ?net ''latest xbox'' 10) = Inr out"
    by blast
  have z: "(0::int) \<le> 10" by simp
  have k: "RAINFOREST_API_KEY ?cfg = Some ''k'' \<and> ''k'' \<noteq> [] \<and>
           ?net (request_url ?cfg ''k'' ''latest xbox'') = Body (JObj ?d) \<and>
           map_of ?d ''search_results'' = Some (JList ?raw)"
    by simp
  from results_truncated_in_order [OF z out] k
  have m: "map Inr (results out) = map (normalize_item (\<lambda>v. [])) (take (nat 10) ?raw)"
    and l: "length (results out) = min (length ?raw) (nat 10)"
    by blast+
  from l have l10: "length (results out) = 10" by simp
  from m have "map (case_sum (\<lambda>e. JNull) (\<lambda>r. dict_get r ''asin''))
                   (map (Inr :: pydict \<Rightarrow> py_error + pydict) (results out)) =
               map (case_sum (\<lambda>e. JNull) (\<lambda>r. dict_get r ''asin''))
                   (map (normalize_item (\<lambda>v. [])) (take (nat 10) ?raw))"
    by (simp only:)
  then have a: "map (\<lambda>r. dict_get r ''asin'') (results out) = map (\<lambda>i. JStr (digits i)) [0..<10]"
    using tk by (simp add: normalize_asin_only digits_nonempty dict_get_simps comp_def)
  from out l10 a z show ?thesis by blast
qed

subsection \<open>What the function recovers from\<close>

text \<open>
  The three handlers of the \<^verbatim>\<open>try\<close> block turn an HTTP error, a network error and any other
  exception raised while fetching and parsing into an outcome with no results.
\<close>

lemma fetch_failures_recovered:
  assumes "RAINFOREST_API_KEY cfg = Some key" and "key \<noteq> []"
  shows "net (request_url cfg key query) = HTTPError code reason \<Longrightarrow>
           fst (search_rainforest cfg rp net query max_items) =
             Inr \<lparr>results = [], error = Some (''HTTPError '' @ show_int code @ '': '' @ reason)\<rparr>"
    and "net (request_url cfg key query) = URLError reason \<Longrightarrow>
           fst (search_rainforest cfg rp net query max_items) =
             Inr \<lparr>results = [], error = Some (''Network error: '' @ reason)\<rparr>"
    and "net (request_url cfg key query) = OtherException e \<Longrightarrow>
           fst (search_rainforest cfg rp net query max_items) =
             Inr \<lparr>results = [], error = Some (''Unexpected error: '' @ e)\<rparr>"
  using assms by (simp_all add: search_rainforest_def Let_def)

text \<open>
  C1 asks that no upstream response makes the function raise. The statements after the
  \<^verbatim>\<open>try\<close> block are not covered by its handlers: a well-formed JSON body that is not an
  object, here the empty array, makes \<^verbatim>\<open>data.get\<close> raise AttributeError, which leaves the
  function.
\<close>

theorem non_object_body_raises:
  "fst (search_rainforest \<lparr>RAINFOREST_API_KEY = Some ''k'', AMAZON_DOMAIN = ''amazon.com''\<rparr>
          (\<lambda>v. []) (\<lambda>u. Body (JList [])) ''latest xbox'' 10) = Inl AttributeError"
  by (simp add: search_rainforest_def clean_results_def Let_def)

text \<open>So do a result item that is not an object, and a \<^verbatim>\<open>search_results\<close> that is null.\<close>

lemma malformed_item_raises:
  "fst (search_rainforest \<lparr>RAINFOREST_API_KEY = Some ''k'', AMAZON_DOMAIN = ''amazon.com''\<rparr>
          (\<lambda>v. []) (\<lambda>u. Body (JObj [(''search_results'', JList [JStr ''B000X''])])) ''latest xbox'' 10)
     = Inl AttributeError"
  "fst (search_rainforest \<lparr>RAINFOREST_API_KEY = Some ''k'', AMAZON_DOMAIN = ''amazon.com''\<rparr>
          (\<lambda>v. []) (\<lambda>u. Body (JObj [(''search_results'', JNull)])) ''latest xbox'' 10)
     = Inl TypeError"
  by (simp_all add: search_rainforest_def clean_results_def sliced_items_def slice_to_def
                    dict_get_default_def normalize_item_def Let_def)

section \<open>Properties of do_GET\<close>

subsection \<open>strip\<close>









subsection \<open>The effective query\<close>
















section \<open>Properties of render_html\<close>

subsection \<open>Patterns and concatenation\<close>

lemma agrees_append: "agrees pat (u @ v) \<Longrightarrow> agrees pat u"
  by (induction pat u rule: agrees.induct) auto

lemma agrees_self: "agrees pat (pat @ b)"
  by (induction pat) auto

lemma free_of_append: "free_of pat a \<Longrightarrow> free_of pat b \<Longrightarrow> free_of pat (a @ b)"
proof (induction a)
  case Nil
  then show ?case by simp
next
  case (Cons c cs)
  then show ?case using agrees_append [of pat "c # cs" b] by auto
qed

lemma free_of_suffix: "free_of pat (a @ b) \<Longrightarrow> free_of pat b"
  by (induction a) auto

lemma free_of_plain: "CHR ''<'' \<notin> set s \<Longrightarrow> free_of pat s"
  by (induction s) auto

lemma free_of_not_sublist:
  assumes "free_of (CHR ''<'' # p) s"
  shows "\<not> sublist (CHR ''<'' # p) s"
proof
  assume "sublist (CHR ''<'' # p) s"
  then obtain a b where "s = a @ (CHR ''<'' # p) @ b" by (auto simp: sublist_def)
  with assms have "free_of (CHR ''<'' # p) ((CHR ''<'' # p) @ b)"
    using free_of_suffix by blast
  then have "\<not> agrees (CHR ''<'' # p) ((CHR ''<'' # p) @ b)" by simp
  then show False using agrees_self by blast
qed

subsection \<open>Escaped text and formatted numbers\<close>

lemma escape_char_safe:
  "x \<in> set (escape_char c) \<Longrightarrow> x \<noteq> CHR ''<'' \<and> x \<noteq> CHR ''>'' \<and> x \<noteq> CHR 0x22 \<and> x \<noteq> CHR 0x27"
  by (auto simp: escape_char_def split: if_splits)

lemma html_escape_safe:
  "x \<in> set (html_escape s) \<Longrightarrow> x \<noteq> CHR ''<'' \<and> x \<noteq> CHR ''>'' \<and> x \<noteq> CHR 0x22 \<and> x \<noteq> CHR 0x27"
  using escape_char_safe by (fastforce simp: html_escape_def)

lemma free_of_escape: "free_of pat (html_escape s)"
  using html_escape_safe [of "CHR ''<''" s] by (auto intro: free_of_plain)

lemma digit_nth: "k < 10 \<Longrightarrow> ''0123456789'' ! k \<in> set ''0123456789''"
  by (rule nth_mem) simp

lemma digits_set: "set (digits n) \<subseteq> set ''0123456789''"
proof (induction n rule: digits.induct)
  case (1 n)
  show ?case
  proof (cases "n < 10")
    case True
    then show ?thesis using digit_nth [of n] by (subst digits.simps) simp
  next
    case False
    have "n mod 10 < 10" by simp
    then show ?thesis using 1 False digit_nth [of "n mod 10"] by (subst digits.simps) simp
  qed
qed

lemma commas_set: "set (commas n) \<subseteq> set ''0123456789,''"
proof (induction n rule: commas.induct)
  case (1 n)
  show ?case
  proof (cases "n < 1000")
    case True
    have "set (digits n) \<subseteq> set ''0123456789,''"
      using digits_set [of n] by (rule subset_trans) simp
    with True show ?thesis by (subst commas.simps) simp
  next
    case False
    have a: "n mod 1000 div 100 < 10" "n mod 100 div 10 < 10" "n mod 10 < 10" by simp_all
    have s: "set ''0123456789'' \<subseteq> set ''0123456789,''" by simp
    have d: "''0123456789'' ! (n mod 1000 div 100) \<in> set ''0123456789,''"
            "''0123456789'' ! (n mod 100 div 10) \<in> set ''0123456789,''"
            "''0123456789'' ! (n mod 10) \<in> set ''0123456789,''"
      using digit_nth [OF a(1)] digit_nth [OF a(2)] digit_nth [OF a(3)] s by blast+
    have c: "CHR '','' \<in> set ''0123456789,''" by simp
    have r: "set (commas (n div 1000)) \<subseteq> set ''0123456789,''" using 1 False by simp
    have "commas n = commas (n div 1000) @ '','' @
           [''0123456789'' ! (n mod 1000 div 100), ''0123456789'' ! (n mod 100 div 10),
            ''0123456789'' ! (n mod 10)]"
      using False by (subst commas.simps) simp
    then show ?thesis using r d c by (simp del: set_simps add: set_append) (simp only: set_simps insert_subset empty_subsetI simp_thms)
  qed
qed

lemma digits_figure: "set (digits n) \<subseteq> figure_chars"
  unfolding figure_chars_def using digits_set [of n] by (rule subset_trans) simp

lemma commas_figure: "set (commas n) \<subseteq> figure_chars"
  unfolding figure_chars_def using commas_set [of n] by (rule subset_trans) simp

lemma format_comma_set: "set (format_comma n) \<subseteq> figure_chars"
proof -
  have "set (if n < 0 then ''-'' else []) \<subseteq> figure_chars"
    by (cases "n < 0") (simp_all add: figure_chars_def)
  with commas_figure [of "nat \<bar>n\<bar>"] show ?thesis by (simp add: format_comma_def)
qed

lemma fixed1_set: "set (fixed1 s t) \<subseteq> figure_chars"
proof -
  have "set (if s then ''-'' else []) \<subseteq> figure_chars"
    by (cases s) (simp_all add: figure_chars_def)
  moreover have "set ''.'' \<subseteq> figure_chars" by (simp add: figure_chars_def)
  ultimately show ?thesis
    using digits_figure [of "t div 10"] digits_figure [of "t mod 10"]
    by (simp add: fixed1_def)
qed

lemma float_f1_set: "set (float_f1 f) \<subseteq> figure_chars"
proof (cases f)
  case (Finite s m e)
  then show ?thesis using fixed1_set by simp
next
  case (Infinite s)
  then show ?thesis by (simp add: figure_chars_def)
next
  case NaN
  then show ?thesis by (simp add: figure_chars_def)
qed

lemma format_f1_set: "format_f1 x = Inr a \<Longrightarrow> set a \<subseteq> figure_chars"
proof (cases x)
  case (IntNum n)
  assume "format_f1 x = Inr a"
  with IntNum obtain f where "a = float_f1 f"
    by (auto simp: format_f1_def split: sum.splits)
  then show ?thesis using float_f1_set by simp
next
  case (FloatNum f)
  assume "format_f1 x = Inr a"
  with FloatNum have "a = float_f1 f" by (simp add: format_f1_def)
  then show ?thesis using float_f1_set by simp
qed

lemma figure_no_lt: "set t \<subseteq> figure_chars \<Longrightarrow> CHR ''<'' \<notin> set t"
  by (auto simp: figure_chars_def)

lemma free_of_figure: "set t \<subseteq> figure_chars \<Longrightarrow> free_of pat t"
  by (rule free_of_plain) (rule figure_no_lt)

subsection \<open>The shape of a card\<close>

lemma card_templates_rating: "list_all (free_of RATING_OPEN) card_templates" by code_simp
lemma card_templates_notice: "list_all (free_of NO_RESULTS) card_templates" by code_simp
lemma card_templates_banner: "list_all (free_of ERROR_OPEN) card_templates" by code_simp
lemma rating_templates_notice: "list_all (free_of NO_RESULTS) rating_templates" by code_simp
lemma rating_templates_banner: "list_all (free_of ERROR_OPEN) rating_templates" by code_simp

lemma head_open_notice: "free_of NO_RESULTS head_open"
  unfolding head_open_def by (intro free_of_append; code_simp)
lemma head_open_banner: "free_of ERROR_OPEN head_open"
  unfolding head_open_def by (intro free_of_append; code_simp)
lemma page_rest_notice:
  "list_all (free_of NO_RESULTS) [head_close, tail_open, tail_close, GRID_OPEN, DIV_CLOSE, ERROR_OPEN]"
  by code_simp
lemma page_rest_banner:
  "list_all (free_of ERROR_OPEN) [head_close, tail_open, tail_close, GRID_OPEN, DIV_CLOSE, NO_RESULTS]"
  by code_simp

lemma card_shape:
  assumes "result_card rp r = Inr c"
  shows "\<exists>rt img href.
           rating_text (dict_get r ''rating'') (dict_get r ''ratings_total'') = Inr rt \<and>
           img_html (py_or (dict_get r ''image'') (JStr []))
                    (html_escape (py_str rp (dict_get_default r ''title'' (JStr [])))) = Inr img \<and>
           escape_value (py_or (dict_get r ''link'') (JStr ''#'')) = Inr href \<and>
           c = card_a @ href @ card_b @ img @ card_c @
               html_escape (py_str rp (dict_get_default r ''title'' (JStr []))) @ card_d @
               html_escape (py_str rp (dict_get_default r ''price'' (JStr []))) @ card_e @
               html_escape (py_str rp (dict_get_default r ''asin'' (JStr []))) @ card_f @ rt @ card_g"
  using assms by (auto simp: result_card_def Let_def split: sum.splits)

lemma escape_value_free: "escape_value v = Inr s \<Longrightarrow> free_of pat s"
  by (auto simp: escape_value_def free_of_escape split: json.splits)

lemma img_html_shape:
  "img_html i t = Inr s \<Longrightarrow>
   s = IMG_NONE \<or> (\<exists>src. escape_value i = Inr src \<and> s = IMG_OPEN @ src @ IMG_ALT @ t @ IMG_CLOSE)"
  by (auto simp: img_html_def IMG_NONE_def IMG_OPEN_def IMG_ALT_def IMG_CLOSE_def
           split: if_splits sum.splits)

lemma img_html_free:
  assumes "img_html i t = Inr s" and "list_all (free_of pat) card_templates" and "free_of pat t"
  shows "free_of pat s"
proof -
  from assms(2) have t: "free_of pat IMG_OPEN" "free_of pat IMG_ALT" "free_of pat IMG_CLOSE"
    "free_of pat IMG_NONE"
    by (simp_all add: card_templates_def)
  from img_html_shape [OF assms(1)] show ?thesis
  proof
    assume "s = IMG_NONE"
    with t show ?thesis by simp
  next
    assume "\<exists>src. escape_value i = Inr src \<and> s = IMG_OPEN @ src @ IMG_ALT @ t @ IMG_CLOSE"
    then obtain src where src: "escape_value i = Inr src" and s: "s = IMG_OPEN @ src @ IMG_ALT @ t @ IMG_CLOSE"
      by blast
    have "free_of pat src" using src by (rule escape_value_free)
    then show ?thesis unfolding s using t assms(3) by (intro free_of_append)
  qed
qed

lemma rating_text_shape:
  "rating_text a b = Inr t \<Longrightarrow>
   (case (as_number a, as_int b) of
      (Some x, Some n) \<Rightarrow> \<exists>f. format_f1 x = Inr f \<and> t = RATING_OPEN @ f @ RATING_MID @ format_comma n @ RATING_CLOSE
    | _ \<Rightarrow> t = [])"
  by (auto simp: rating_text_def RATING_MID_def RATING_CLOSE_def split: option.splits sum.splits)

lemma rating_text_free:
  assumes "rating_text a b = Inr t" and "list_all (free_of pat) rating_templates"
  shows "free_of pat t"
proof -
  from assms(2) have t: "free_of pat RATING_OPEN" "free_of pat RATING_MID" "free_of pat RATING_CLOSE"
    by (simp_all add: rating_templates_def)
  show ?thesis
  proof (cases "\<exists>x n. as_number a = Some x \<and> as_int b = Some n")
    case True
    then obtain x n where xn: "as_number a = Some x" "as_int b = Some n" by blast
    with rating_text_shape [OF assms(1)] obtain f where
      f: "format_f1 x = Inr f" and s: "t = RATING_OPEN @ f @ RATING_MID @ format_comma n @ RATING_CLOSE"
      by auto
    have "free_of pat f" using format_f1_set [OF f] by (rule free_of_figure)
    moreover have "free_of pat (format_comma n)" using format_comma_set by (rule free_of_figure)
    ultimately show ?thesis unfolding s using t by (intro free_of_append)
  next
    case False
    with rating_text_shape [OF assms(1)] have "t = []"
      by (auto split: option.splits)
    then show ?thesis by simp
  qed
qed

lemma card_free:
  assumes "result_card rp r = Inr c" and "list_all (free_of pat) card_templates"
      and "\<And>rt. rating_text (dict_get r ''rating'') (dict_get r ''ratings_total'') = Inr rt \<Longrightarrow> free_of pat rt"
  shows "free_of pat c"
proof -
  from card_shape [OF assms(1)] obtain rt img href where
    rt: "rating_text (dict_get r ''rating'') (dict_get r ''ratings_total'') = Inr rt" and
    img: "img_html (py_or (dict_get r ''image'') (JStr []))
                    (html_escape (py_str rp (dict_get_default r ''title'' (JStr [])))) = Inr img" and
    href: "escape_value (py_or (dict_get r ''link'') (JStr ''#'')) = Inr href" and
    c: "c = card_a @ href @ card_b @ img @ card_c @
               html_escape (py_str rp (dict_get_default r ''title'' (JStr []))) @ card_d @
               html_escape (py_str rp (dict_get_default r ''price'' (JStr []))) @ card_e @
               html_escape (py_str rp (dict_get_default r ''asin'' (JStr []))) @ card_f @ rt @ card_g"
    by blast
  have 1: "free_of pat img" using img assms(2) free_of_escape by (rule img_html_free)
  have 2: "free_of pat href" using href by (rule escape_value_free)
  have 3: "free_of pat rt" using assms(3) [OF rt] .
  from assms(2) have t: "free_of pat card_a" "free_of pat card_b" "free_of pat card_c"
    "free_of pat card_d" "free_of pat card_e" "free_of pat card_f" "free_of pat card_g"
    by (simp_all add: card_templates_def)
  show ?thesis unfolding c
    by (intro free_of_append t 1 2 3 free_of_escape)
qed

subsection \<open>The rating segment\<close>

lemma sublist_here: "sublist x (x @ b)"
  by (rule sublist_append_rightI)

lemma RATING_OPEN_cons: "RATING_OPEN = CHR ''<'' # ''span>'' @ star @ '' ''"
  by (simp add: RATING_OPEN_def)

lemma NO_RESULTS_cons: \<open>NO_RESULTS = CHR ''<'' # ''p class="meta">No results found.</p>''\<close>
  by (simp add: NO_RESULTS_def)

lemma ERROR_OPEN_cons: \<open>ERROR_OPEN = CHR ''<'' # ''div class="error">''\<close>
  by (simp add: ERROR_OPEN_def)

text \<open>
  C9, as amended: a result card has the rating segment, the star followed by the rating to one
  decimal place and the ratings total with thousands separators, exactly when the rating
  is an int, a float or a bool and the ratings total is an int or a bool (\<^verbatim>\<open>isinstance\<close> takes
  the JSON booleans for the integers 1 and 0); in every other case (a value absent, null
  or of another type) the card has no rating segment.
\<close>

theorem rating_segment:
  assumes "result_card rp r = Inr c"
  shows "(sublist RATING_OPEN c \<longleftrightarrow>
            as_number (dict_get r ''rating'') \<noteq> None \<and> as_int (dict_get r ''ratings_total'') \<noteq> None) \<and>
         (\<forall>x n. as_number (dict_get r ''rating'') = Some x \<and> as_int (dict_get r ''ratings_total'') = Some n \<longrightarrow>
            (\<exists>a. format_f1 x = Inr a \<and>
                 sublist (RATING_OPEN @ a @ RATING_MID @ format_comma n @ RATING_CLOSE) c))"
proof -
  from card_shape [OF assms] obtain rt img href where
    rt: "rating_text (dict_get r ''rating'') (dict_get r ''ratings_total'') = Inr rt" and
    c: "c = card_a @ href @ card_b @ img @ card_c @
               html_escape (py_str rp (dict_get_default r ''title'' (JStr []))) @ card_d @
               html_escape (py_str rp (dict_get_default r ''price'' (JStr []))) @ card_e @
               html_escape (py_str rp (dict_get_default r ''asin'' (JStr []))) @ card_f @ rt @ card_g"
    by blast
  have "c = (card_a @ href @ card_b @ img @ card_c @
               html_escape (py_str rp (dict_get_default r ''title'' (JStr []))) @ card_d @
               html_escape (py_str rp (dict_get_default r ''price'' (JStr []))) @ card_e @
               html_escape (py_str rp (dict_get_default r ''asin'' (JStr []))) @ card_f) @ rt @ card_g"
    unfolding c by simp
  then have inside: "sublist rt c"
    by (simp only: sublist_appendI)
  show ?thesis
  proof (cases "\<exists>x n. as_number (dict_get r ''rating'') = Some x \<and> as_int (dict_get r ''ratings_total'') = Some n")
    case True
    then obtain x n where xn: "as_number (dict_get r ''rating'') = Some x"
        "as_int (dict_get r ''ratings_total'') = Some n" by blast
    with rating_text_shape [OF rt] obtain a where
      a: "format_f1 x = Inr a" and s: "rt = RATING_OPEN @ a @ RATING_MID @ format_comma n @ RATING_CLOSE"
      by auto
    have "sublist RATING_OPEN rt" unfolding s by (rule sublist_here)
    then have 1: "sublist RATING_OPEN c" using inside by (rule sublist_order.order_trans)
    from inside s have 2: "sublist (RATING_OPEN @ a @ RATING_MID @ format_comma n @ RATING_CLOSE) c"
      by simp
    from xn a 1 2 show ?thesis by auto
  next
    case False
    with rating_text_shape [OF rt] have "rt = []" by (auto split: option.splits)
    then have "\<And>t. rating_text (dict_get r ''rating'') (dict_get r ''ratings_total'') = Inr t \<Longrightarrow> free_of RATING_OPEN t"
      using rt by simp
    with assms card_templates_rating have "free_of RATING_OPEN c" by (rule card_free)
    then have "\<not> sublist RATING_OPEN c"
      unfolding RATING_OPEN_cons by (rule free_of_not_sublist)
    with False show ?thesis by auto
  qed
qed

text \<open>
  C9 as the specification states it fails on JSON booleans: \<^verbatim>\<open>true\<close> is not a number, and a card
  whose rating and ratings total are both \<^verbatim>\<open>true\<close> has the segment, with 1.0 and 1.
\<close>

theorem boolean_rating_counterexample:
  "\<not> spec_numeric (JBool True) \<and> \<not> spec_integer (JBool True) \<and>
   rating_text (JBool True) (JBool True) = Inr (RATING_OPEN @ ''1.0</span> <span>(1)</span>'') \<and>
   result_card (\<lambda>v. []) [(''title'', JStr ''Xbox''), (''rating'', JBool True), (''ratings_total'', JBool True)] =
     Inr (card_a @ ''#'' @ card_b @ IMG_NONE @ card_c @ ''Xbox'' @ card_d @ card_e @ card_f @
          RATING_OPEN @ ''1.0</span> <span>(1)</span>'' @ card_g)"
proof -
  have f: "format_f1 (IntNum 1) = Inr ''1.0''"
    by (simp add: format_f1_def int_to_float_def fixed1_def digits.simps Let_def)
  have g: "format_comma 1 = ''1''"
    by (simp add: format_comma_def commas.simps digits.simps)
  have rt: "rating_text (JBool True) (JBool True) = Inr (RATING_OPEN @ ''1.0</span> <span>(1)</span>'')"
    by (simp add: rating_text_def as_number_def as_int_def f g RATING_MID_def RATING_CLOSE_def)
  have e: "html_escape ''Xbox'' = ''Xbox''" "html_escape ''#'' = ''#''" "html_escape [] = []"
    by (simp_all add: html_escape_def escape_char_def)
  have "result_card (\<lambda>v. []) [(''title'', JStr ''Xbox''), (''rating'', JBool True), (''ratings_total'', JBool True)] =
     Inr (card_a @ ''#'' @ card_b @ IMG_NONE @ card_c @ ''Xbox'' @ card_d @ card_e @ card_f @
          RATING_OPEN @ ''1.0</span> <span>(1)</span>'' @ card_g)"
    by (simp add: result_card_def Let_def dict_get_simps dict_get_default_def py_or_def rt img_html_def
                  escape_value_def e IMG_NONE_def)
  with rt show ?thesis by (simp add: spec_numeric_def spec_integer_def)
qed

theorem rating_segment_witness:
  "result_card (\<lambda>v. []) [(''title'', JStr ''Xbox''), (''rating'', JFloat (Finite False 9 (- 1))),
                    (''ratings_total'', JInt 12345)] =
     Inr (card_a @ ''#'' @ card_b @ IMG_NONE @ card_c @ ''Xbox'' @ card_d @ card_e @ card_f @
          RATING_OPEN @ ''4.5</span> <span>(12,345)</span>'' @ card_g) \<and>
   sublist RATING_OPEN (card_a @ ''#'' @ card_b @ IMG_NONE @ card_c @ ''Xbox'' @ card_d @ card_e @ card_f @
          RATING_OPEN @ ''4.5</span> <span>(12,345)</span>'' @ card_g) \<and>
   as_number (JFloat (Finite False 9 (- 1))) \<noteq> None \<and> as_int (JInt 12345) \<noteq> None"
proof -
  let ?r = "[(''title'', JStr ''Xbox''), (''rating'', JFloat (Finite False 9 (- 1))),
             (''ratings_total'', JInt 12345)]"
  have f: "format_f1 (FloatNum (Finite False 9 (- 1))) = Inr ''4.5''"
    by (simp add: format_f1_def fixed1_def round_half_even_def digits.simps Let_def)
  have g: "format_comma 12345 = ''12,345''"
    by (simp add: format_comma_def commas.simps digits.simps)
  have rt: "rating_text (JFloat (Finite False 9 (- 1))) (JInt 12345) =
              Inr (RATING_OPEN @ ''4.5</span> <span>(12,345)</span>'')"
    by (simp add: rating_text_def as_number_def as_int_def f g RATING_MID_def RATING_CLOSE_def)
  have e: "html_escape ''Xbox'' = ''Xbox''" "html_escape ''#'' = ''#''" "html_escape [] = []"
    by (simp_all add: html_escape_def escape_char_def)
  have c: "result_card (\<lambda>v. []) ?r =
     Inr (card_a @ ''#'' @ card_b @ IMG_NONE @ card_c @ ''Xbox'' @ card_d @ card_e @ card_f @
          RATING_OPEN @ ''4.5</span> <span>(12,345)</span>'' @ card_g)"
    by (simp add: result_card_def Let_def dict_get_simps dict_get_default_def py_or_def rt img_html_def
                  escape_value_def e IMG_NONE_def)
  have n: "as_number (dict_get ?r ''rating'') \<noteq> None \<and> as_int (dict_get ?r ''ratings_total'') \<noteq> None"
    by (simp add: dict_get_simps as_number_def as_int_def)
  from rating_segment [OF c] n c show ?thesis
    by (simp add: dict_get_simps)
qed

subsection \<open>The notice and the banner\<close>

lemma cards_free:
  assumes "list_all (free_of pat) card_templates" and "list_all (free_of pat) rating_templates"
  shows "cards rp rs = Inr cs \<Longrightarrow> free_of pat (concat cs)"
proof (induction rs arbitrary: cs)
  case Nil
  then show ?case by simp
next
  case (Cons r rs)
  then obtain c cs' where c: "result_card rp r = Inr c" and cs': "cards rp rs = Inr cs'" and e: "cs = c # cs'"
    by (auto split: sum.splits)
  have "free_of pat c"
    using c assms(1) rating_text_free [OF _ assms(2)] by (rule card_free)
  moreover have "free_of pat (concat cs')" using cs' by (rule Cons.IH)
  ultimately show ?case unfolding e by (simp add: free_of_append)
qed

lemma error_banner_shape:
  "error_banner err = (case err of None \<Rightarrow> [] | Some e \<Rightarrow> if e = [] then [] else [ERROR_OPEN @ html_escape e @ DIV_CLOSE])"
  by (simp add: error_banner_def DIV_CLOSE_def split: option.splits)

lemma page_shape:
  assumes "render_html cfg rp query rs err = Inr html"
  shows "(rs = [] \<and> html = head_open @ html_escape query @ head_close @ concat (error_banner err) @
                             NO_RESULTS @ tail_open @ html_escape (AMAZON_DOMAIN cfg) @ tail_close) \<or>
         (rs \<noteq> [] \<and> (\<exists>cs. cards rp rs = Inr cs \<and>
             html = head_open @ html_escape query @ head_close @ concat (error_banner err) @
                    GRID_OPEN @ concat cs @ DIV_CLOSE @ tail_open @ html_escape (AMAZON_DOMAIN cfg) @
                    tail_close))"
  using assms by (auto simp: render_html_def Let_def DIV_CLOSE_def split: if_splits sum.splits)

lemma banner_free_notice: "free_of NO_RESULTS (concat (error_banner err))"
  using page_rest_notice
  by (auto simp: error_banner_shape split: option.splits intro!: free_of_append free_of_escape)

text \<open>
  C6, as amended: the page has the no-results notice exactly when the result list is empty,
  whatever the error is, and such a page is always produced; it has the error banner
  exactly when the error is a string that is not empty.
\<close>

theorem notice_iff_no_results:
  "(rs = [] \<longrightarrow> (\<exists>html. render_html cfg rp query rs err = Inr html)) \<and>
   (render_html cfg rp query rs err = Inr html \<longrightarrow>
      (sublist NO_RESULTS html \<longleftrightarrow> rs = []) \<and>
      (sublist ERROR_OPEN html \<longleftrightarrow> (\<exists>e. err = Some e \<and> e \<noteq> [])))"
proof (intro conjI impI)
  assume "rs = []"
  then show "\<exists>html. render_html cfg rp query rs err = Inr html"
    by (simp add: render_html_def Let_def)
next
  assume r: "render_html cfg rp query rs err = Inr html"
  show "sublist NO_RESULTS html \<longleftrightarrow> rs = []"
  proof
    assume s: "sublist NO_RESULTS html"
    show "rs = []"
    proof (rule ccontr)
      assume "rs \<noteq> []"
      with page_shape [OF r] obtain cs where cs: "cards rp rs = Inr cs" and
        h: "html = head_open @ html_escape query @ head_close @ concat (error_banner err) @
                    GRID_OPEN @ concat cs @ DIV_CLOSE @ tail_open @ html_escape (AMAZON_DOMAIN cfg) @
                    tail_close"
        by blast
      have c: "free_of NO_RESULTS (concat cs)"
        using card_templates_notice rating_templates_notice cs by (rule cards_free)
      from page_rest_notice have t: "free_of NO_RESULTS head_close" "free_of NO_RESULTS tail_open"
        "free_of NO_RESULTS tail_close" "free_of NO_RESULTS GRID_OPEN" "free_of NO_RESULTS DIV_CLOSE"
        by simp_all
      have "free_of NO_RESULTS html" unfolding h
        by (intro free_of_append head_open_notice free_of_escape banner_free_notice c t)
      then have "\<not> sublist NO_RESULTS html"
        unfolding NO_RESULTS_cons by (rule free_of_not_sublist)
      with s show False by simp
    qed
  next
    assume "rs = []"
    with page_shape [OF r] have
      "html = (head_open @ html_escape query @ head_close @ concat (error_banner err)) @
              NO_RESULTS @ (tail_open @ html_escape (AMAZON_DOMAIN cfg) @ tail_close)"
      by simp
    then show "sublist NO_RESULTS html" by (simp only: sublist_appendI)
  qed
next
  assume r: "render_html cfg rp query rs err = Inr html"
  from page_rest_banner have t: "free_of ERROR_OPEN head_close" "free_of ERROR_OPEN tail_open"
        "free_of ERROR_OPEN tail_close" "free_of ERROR_OPEN GRID_OPEN" "free_of ERROR_OPEN DIV_CLOSE"
        "free_of ERROR_OPEN NO_RESULTS"
    by simp_all
  show "sublist ERROR_OPEN html \<longleftrightarrow> (\<exists>e. err = Some e \<and> e \<noteq> [])"
  proof
    assume s: "sublist ERROR_OPEN html"
    show "\<exists>e. err = Some e \<and> e \<noteq> []"
    proof (rule ccontr)
      assume "\<not> (\<exists>e. err = Some e \<and> e \<noteq> [])"
      then have b: "error_banner err = []"
        by (auto simp: error_banner_def split: option.splits)
      have "free_of ERROR_OPEN html"
      proof (cases "rs = []")
        case True
        with page_shape [OF r] b have
          h: "html = head_open @ html_escape query @ head_close @ NO_RESULTS @ tail_open @
                     html_escape (AMAZON_DOMAIN cfg) @ tail_close"
          by simp
        show ?thesis unfolding h
          by (intro free_of_append head_open_banner free_of_escape t)
      next
        case False
        with page_shape [OF r] b obtain cs where cs: "cards rp rs = Inr cs" and
          h: "html = head_open @ html_escape query @ head_close @
                    GRID_OPEN @ concat cs @ DIV_CLOSE @ tail_open @ html_escape (AMAZON_DOMAIN cfg) @
                    tail_close"
          by auto
        have c: "free_of ERROR_OPEN (concat cs)"
          using card_templates_banner rating_templates_banner cs by (rule cards_free)
        show ?thesis unfolding h
          by (intro free_of_append head_open_banner free_of_escape c t)
      qed
      then have "\<not> sublist ERROR_OPEN html"
        unfolding ERROR_OPEN_cons by (rule free_of_not_sublist)
      with s show False by simp
    qed
  next
    assume "\<exists>e. err = Some e \<and> e \<noteq> []"
    then obtain e where e: "err = Some e" "e \<noteq> []" by blast
    then have b: "concat (error_banner err) = ERROR_OPEN @ html_escape e @ DIV_CLOSE"
      by (simp add: error_banner_shape)
    from page_shape [OF r] obtain rest where
      "html = head_open @ html_escape query @ head_close @ concat (error_banner err) @ rest"
      by auto
    with b have "html = (head_open @ html_escape query @ head_close) @ ERROR_OPEN @
                        (html_escape e @ DIV_CLOSE @ rest)"
      by simp
    then show "sublist ERROR_OPEN html" by (simp only: sublist_appendI)
  qed
qed

text \<open>
  C6 as the specification states it fails on every failed search: with an error and no
  results the page has the banner and the notice.
\<close>

theorem error_page_counterexample:
  "render_html \<lparr>RAINFOREST_API_KEY = Some ''k'', AMAZON_DOMAIN = ''amazon.com''\<rparr> (\<lambda>v. [])
       ''latest xbox'' [] (Some ''Network error: timed out'') =
     Inr (head_open @ ''latest xbox'' @ head_close @ ERROR_OPEN @ ''Network error: timed out</div>'' @
          NO_RESULTS @ tail_open @ ''amazon.com'' @ tail_close) \<and>
   sublist NO_RESULTS
     (head_open @ ''latest xbox'' @ head_close @ ERROR_OPEN @ ''Network error: timed out</div>'' @
      NO_RESULTS @ tail_open @ ''amazon.com'' @ tail_close) \<and>
   Some ''Network error: timed out'' \<noteq> None"
proof -
  have e: "html_escape ''latest xbox'' = ''latest xbox''" "html_escape ''amazon.com'' = ''amazon.com''"
    "html_escape ''Network error: timed out'' = ''Network error: timed out''"
    by (simp_all add: html_escape_def escape_char_def)
  have 1: "render_html \<lparr>RAINFOREST_API_KEY = Some ''k'', AMAZON_DOMAIN = ''amazon.com''\<rparr> (\<lambda>v. [])
       ''latest xbox'' [] (Some ''Network error: timed out'') =
     Inr (head_open @ ''latest xbox'' @ head_close @ ERROR_OPEN @ ''Network error: timed out</div>'' @
          NO_RESULTS @ tail_open @ ''amazon.com'' @ tail_close)"
    by (simp add: render_html_def error_banner_def e Let_def DIV_CLOSE_def)
  have "head_open @ ''latest xbox'' @ head_close @ ERROR_OPEN @ ''Network error: timed out</div>'' @
          NO_RESULTS @ tail_open @ ''amazon.com'' @ tail_close =
        (head_open @ ''latest xbox'' @ head_close @ ERROR_OPEN @ ''Network error: timed out</div>'') @
          NO_RESULTS @ (tail_open @ ''amazon.com'' @ tail_close)"
    by simp
  then have 2: "sublist NO_RESULTS
     (head_open @ ''latest xbox'' @ head_close @ ERROR_OPEN @ ''Network error: timed out</div>'' @
      NO_RESULTS @ tail_open @ ''amazon.com'' @ tail_close)"
    by (simp only: sublist_appendI)
  from 1 2 show ?thesis by simp
qed

theorem notice_iff_no_results_witness:
  "render_html \<lparr>RAINFOREST_API_KEY = Some ''k'', AMAZON_DOMAIN = ''amazon.com''\<rparr> (\<lambda>v. [])
       ''latest xbox'' [] None =
     Inr (head_open @ ''latest xbox'' @ head_close @ NO_RESULTS @ tail_open @ ''amazon.com'' @ tail_close) \<and>
   sublist NO_RESULTS
     (head_open @ ''latest xbox'' @ head_close @ NO_RESULTS @ tail_open @ ''amazon.com'' @ tail_close) \<and>
   \<not> sublist ERROR_OPEN
     (head_open @ ''latest xbox'' @ head_close @ NO_RESULTS @ tail_open @ ''amazon.com'' @ tail_close)"
proof -
  have e: "html_escape ''latest xbox'' = ''latest xbox''" "html_escape ''amazon.com'' = ''amazon.com''"
    by (simp_all add: html_escape_def escape_char_def)
  have 1: "render_html \<lparr>RAINFOREST_API_KEY = Some ''k'', AMAZON_DOMAIN = ''amazon.com''\<rparr> (\<lambda>v. [])
       ''latest xbox'' [] None =
     Inr (head_open @ ''latest xbox'' @ head_close @ NO_RESULTS @ tail_open @ ''amazon.com'' @ tail_close)"
    by (simp add: render_html_def error_banner_def e Let_def)
  from notice_iff_no_results [THEN conjunct2, rule_format, OF 1] 1 show ?thesis by simp
qed

subsection \<open>Escaping\<close>

lemma ok_piece_mono: "ok_piece S p \<Longrightarrow> S \<subseteq> S' \<Longrightarrow> ok_piece S' p"
  by (cases p) auto

lemma markup_members:
  "head_open \<in> set MARKUP" "head_close \<in> set MARKUP" "tail_open \<in> set MARKUP"
  "tail_close \<in> set MARKUP" "GRID_OPEN \<in> set MARKUP" "DIV_CLOSE \<in> set MARKUP"
  "ERROR_OPEN \<in> set MARKUP" "NO_RESULTS \<in> set MARKUP"
  "card_a \<in> set MARKUP" "card_b \<in> set MARKUP" "card_c \<in> set MARKUP" "card_d \<in> set MARKUP"
  "card_e \<in> set MARKUP" "card_f \<in> set MARKUP" "card_g \<in> set MARKUP"
  "IMG_OPEN \<in> set MARKUP" "IMG_ALT \<in> set MARKUP" "IMG_CLOSE \<in> set MARKUP" "IMG_NONE \<in> set MARKUP"
  "RATING_OPEN \<in> set MARKUP" "RATING_MID \<in> set MARKUP" "RATING_CLOSE \<in> set MARKUP"
  by (simp_all add: MARKUP_def page_templates_def card_templates_def rating_templates_def)

lemma escape_value_str: "escape_value v = Inr s \<Longrightarrow> \<exists>x. v = JStr x \<and> s = html_escape x"
  by (auto simp: escape_value_def split: json.splits)

lemma rating_pieces:
  assumes "rating_text a b = Inr t"
  shows "\<exists>ps. t = concat (map piece_text ps) \<and> (\<forall>p\<in>set ps. ok_piece S p)"
proof (cases "\<exists>x n. as_number a = Some x \<and> as_int b = Some n")
  case True
  then obtain x n where xn: "as_number a = Some x" "as_int b = Some n" by blast
  with rating_text_shape [OF assms] obtain f where
    f: "format_f1 x = Inr f" and s: "t = RATING_OPEN @ f @ RATING_MID @ format_comma n @ RATING_CLOSE"
    by auto
  let ?ps = "[Markup RATING_OPEN, Figure f, Markup RATING_MID, Figure (format_comma n), Markup RATING_CLOSE]"
  have "t = concat (map piece_text ?ps)" using s by simp
  moreover have "\<forall>p\<in>set ?ps. ok_piece S p"
    using format_f1_set [OF f] format_comma_set [of n] by (simp add: markup_members)
  ultimately show ?thesis by blast
next
  case False
  with rating_text_shape [OF assms] have "t = []" by (auto split: option.splits)
  then show ?thesis by (intro exI [of _ "[]"]) simp
qed

lemma img_pieces:
  assumes "img_html i (html_escape tt) = Inr s"
  shows "\<exists>ps. s = concat (map piece_text ps) \<and>
              (\<forall>p\<in>set ps. ok_piece ({tt} \<union> set (case i of JStr x \<Rightarrow> [x] | _ \<Rightarrow> [])) p)"
  using img_html_shape [OF assms]
proof
  assume "s = IMG_NONE"
  then have "s = concat (map piece_text [Markup IMG_NONE])" by simp
  moreover have "\<forall>p\<in>set [Markup IMG_NONE]. ok_piece ({tt} \<union> set (case i of JStr x \<Rightarrow> [x] | _ \<Rightarrow> [])) p"
    by (simp add: markup_members)
  ultimately show ?thesis by blast
next
  assume "\<exists>src. escape_value i = Inr src \<and> s = IMG_OPEN @ src @ IMG_ALT @ html_escape tt @ IMG_CLOSE"
  then obtain src where src: "escape_value i = Inr src"
    and s: "s = IMG_OPEN @ src @ IMG_ALT @ html_escape tt @ IMG_CLOSE" by blast
  from escape_value_str [OF src] obtain x where x: "i = JStr x" "src = html_escape x" by blast
  let ?ps = "[Markup IMG_OPEN, Data x, Markup IMG_ALT, Data tt, Markup IMG_CLOSE]"
  have "s = concat (map piece_text ?ps)" using s x by simp
  moreover have "\<forall>p\<in>set ?ps. ok_piece ({tt} \<union> set (case i of JStr x \<Rightarrow> [x] | _ \<Rightarrow> [])) p"
    using x by (simp add: markup_members)
  ultimately show ?thesis by blast
qed

lemma card_pieces:
  assumes "result_card rp r = Inr c"
  shows "\<exists>ps. c = concat (map piece_text ps) \<and>
              (\<forall>p\<in>set ps. ok_piece (set (card_sources rp r)) p) \<and>
              Data (py_str rp (dict_get_default r ''title'' (JStr []))) \<in> set ps \<and>
              Data (py_str rp (dict_get_default r ''asin'' (JStr []))) \<in> set ps \<and>
              Data (py_str rp (dict_get_default r ''price'' (JStr []))) \<in> set ps"
proof -
  let ?title = "py_str rp (dict_get_default r ''title'' (JStr []))"
  let ?asin = "py_str rp (dict_get_default r ''asin'' (JStr []))"
  let ?price = "py_str rp (dict_get_default r ''price'' (JStr []))"
  let ?i = "py_or (dict_get r ''image'') (JStr [])"
  let ?S = "set (card_sources rp r)"
  from card_shape [OF assms] obtain rt img href where
    rt: "rating_text (dict_get r ''rating'') (dict_get r ''ratings_total'') = Inr rt" and
    img: "img_html ?i (html_escape ?title) = Inr img" and
    href: "escape_value (py_or (dict_get r ''link'') (JStr ''#'')) = Inr href" and
    c: "c = card_a @ href @ card_b @ img @ card_c @ html_escape ?title @ card_d @
            html_escape ?price @ card_e @ html_escape ?asin @ card_f @ rt @ card_g"
    by blast
  from escape_value_str [OF href] obtain l where
    l: "py_or (dict_get r ''link'') (JStr ''#'') = JStr l" "href = html_escape l" by blast
  from rating_pieces [OF rt, of ?S] obtain rps where
    rps: "rt = concat (map piece_text rps)" "\<forall>p\<in>set rps. ok_piece ?S p" by blast
  from img_pieces [OF img] obtain ips where
    ips: "img = concat (map piece_text ips)"
         "\<forall>p\<in>set ips. ok_piece ({?title} \<union> set (case ?i of JStr x \<Rightarrow> [x] | _ \<Rightarrow> [])) p"
    by blast
  have sub: "{?title} \<union> set (case ?i of JStr x \<Rightarrow> [x] | _ \<Rightarrow> []) \<subseteq> ?S"
    by (auto simp: card_sources_def)
  have ips': "\<forall>p\<in>set ips. ok_piece ?S p"
    using ips(2) sub by (blast intro: ok_piece_mono)
  have mem: "l \<in> ?S" "?title \<in> ?S" "?asin \<in> ?S" "?price \<in> ?S"
    using l(1) by (simp_all add: card_sources_def)
  let ?ps = "[Markup card_a, Data l, Markup card_b] @ ips @
             [Markup card_c, Data ?title, Markup card_d, Data ?price, Markup card_e, Data ?asin,
              Markup card_f] @ rps @ [Markup card_g]"
  have "c = concat (map piece_text ?ps)"
    unfolding c using l(2) rps(1) ips(1) by simp
  moreover have "\<forall>p\<in>set ?ps. ok_piece ?S p"
    using ips' rps(2) mem by (auto simp: markup_members)
  moreover have "Data ?title \<in> set ?ps" "Data ?asin \<in> set ?ps" "Data ?price \<in> set ?ps"
    by simp_all
  ultimately show ?thesis by blast
qed

lemma cards_pieces:
  "cards rp rs = Inr cs \<Longrightarrow>
   \<exists>ps. concat cs = concat (map piece_text ps) \<and>
        (\<forall>p\<in>set ps. ok_piece (set (concat (map (card_sources rp) rs))) p) \<and>
        (\<forall>r\<in>set rs. Data (py_str rp (dict_get_default r ''title'' (JStr []))) \<in> set ps \<and>
                     Data (py_str rp (dict_get_default r ''asin'' (JStr []))) \<in> set ps \<and>
                     Data (py_str rp (dict_get_default r ''price'' (JStr []))) \<in> set ps)"
proof (induction rs arbitrary: cs)
  case Nil
  then have "cs = []" by simp
  then show ?case by (intro exI [of _ "[]"]) simp
next
  case (Cons r rs)
  then obtain c cs' where c: "result_card rp r = Inr c" and cs': "cards rp rs = Inr cs'"
    and e: "cs = c # cs'"
    by (auto split: sum.splits)
  from card_pieces [OF c] obtain ps1 where
    1: "c = concat (map piece_text ps1)" "\<forall>p\<in>set ps1. ok_piece (set (card_sources rp r)) p"
       "Data (py_str rp (dict_get_default r ''title'' (JStr []))) \<in> set ps1"
       "Data (py_str rp (dict_get_default r ''asin'' (JStr []))) \<in> set ps1"
       "Data (py_str rp (dict_get_default r ''price'' (JStr []))) \<in> set ps1"
    by blast
  from Cons.IH [OF cs'] obtain ps2 where
    2: "concat cs' = concat (map piece_text ps2)"
       "\<forall>p\<in>set ps2. ok_piece (set (concat (map (card_sources rp) rs))) p"
       "\<forall>r\<in>set rs. Data (py_str rp (dict_get_default r ''title'' (JStr []))) \<in> set ps2 \<and>
                     Data (py_str rp (dict_get_default r ''asin'' (JStr []))) \<in> set ps2 \<and>
                     Data (py_str rp (dict_get_default r ''price'' (JStr []))) \<in> set ps2"
    by blast
  let ?S = "set (concat (map (card_sources rp) (r # rs)))"
  have "concat cs = concat (map piece_text (ps1 @ ps2))"
    using e 1(1) 2(1) by simp
  moreover have "\<forall>p\<in>set (ps1 @ ps2). ok_piece ?S p"
  proof
    fix p assume "p \<in> set (ps1 @ ps2)"
    then consider "p \<in> set ps1" | "p \<in> set ps2" by auto
    then show "ok_piece ?S p"
    proof cases
      case 1
      with \<open>\<forall>p\<in>set ps1. ok_piece (set (card_sources rp r)) p\<close>
      have "ok_piece (set (card_sources rp r)) p" by blast
      then show ?thesis by (rule ok_piece_mono) auto
    next
      case 2
      with \<open>\<forall>p\<in>set ps2. ok_piece (set (concat (map (card_sources rp) rs))) p\<close>
      have "ok_piece (set (concat (map (card_sources rp) rs))) p" by blast
      then show ?thesis by (rule ok_piece_mono) auto
    qed
  qed
  moreover have "\<forall>r'\<in>set (r # rs).
                     Data (py_str rp (dict_get_default r' ''title'' (JStr []))) \<in> set (ps1 @ ps2) \<and>
                     Data (py_str rp (dict_get_default r' ''asin'' (JStr []))) \<in> set (ps1 @ ps2) \<and>
                     Data (py_str rp (dict_get_default r' ''price'' (JStr []))) \<in> set (ps1 @ ps2)"
    using 1(3,4,5) 2(3) by simp
  ultimately show ?case by (intro exI [of _ "ps1 @ ps2"] conjI)
qed

lemma banner_pieces:
  "\<exists>ps. concat (error_banner err) = concat (map piece_text ps) \<and>
        (\<forall>p\<in>set ps. ok_piece (set (case err of None \<Rightarrow> [] | Some e \<Rightarrow> [e])) p)"
proof (cases "\<exists>e. err = Some e \<and> e \<noteq> []")
  case True
  then obtain e where e: "err = Some e" "e \<noteq> []" by blast
  let ?ps = "[Markup ERROR_OPEN, Data e, Markup DIV_CLOSE]"
  have "concat (error_banner err) = concat (map piece_text ?ps)"
    using e by (simp add: error_banner_def)
  moreover have "\<forall>p\<in>set ?ps. ok_piece (set (case err of None \<Rightarrow> [] | Some e \<Rightarrow> [e])) p"
    using e by (simp add: markup_members)
  ultimately show ?thesis by blast
next
  case False
  then have "error_banner err = []" by (auto simp: error_banner_def split: option.splits)
  then show ?thesis by (intro exI [of _ "[]"]) simp
qed

lemma markup_script: "list_all (free_of SCRIPT) (tl MARKUP)"
  by code_simp

lemma head_open_script: "free_of SCRIPT head_open"
  unfolding head_open_def by (intro free_of_append; code_simp)

lemma markup_free_script: "t \<in> set MARKUP \<Longrightarrow> free_of SCRIPT t"
proof -
  assume "t \<in> set MARKUP"
  moreover have "MARKUP = head_open # tl MARKUP"
    by (simp add: MARKUP_def page_templates_def)
  ultimately have "t = head_open \<or> t \<in> set (tl MARKUP)" by (metis set_ConsD)
  then show ?thesis using head_open_script markup_script by (auto simp: list_all_iff)
qed

lemma pieces_free_script:
  "(\<forall>p\<in>set ps. ok_piece S p) \<Longrightarrow> free_of SCRIPT (concat (map piece_text ps))"
proof (induction ps)
  case Nil
  then show ?case by simp
next
  case (Cons p ps)
  have "free_of SCRIPT (piece_text p)"
  proof (cases p)
    case (Markup t)
    with Cons.prems show ?thesis by (simp add: markup_free_script)
  next
    case (Data s)
    then show ?thesis by (simp add: free_of_escape)
  next
    case (Figure t)
    with Cons.prems show ?thesis by (simp add: free_of_figure)
  qed
  with Cons show ?case by (simp add: free_of_append)
qed

lemma SCRIPT_cons: "SCRIPT = CHR ''<'' # ''script''"
  by (simp add: SCRIPT_def)

text \<open>
  C5: a page that \<^verbatim>\<open>render_html\<close> returns is a concatenation of template markup, of escaped
  external strings (among them the query and each title, asin and price) and of formatted
  numbers; the escaped form of a string has no \<^verbatim>\<open><\<close>, \<^verbatim>\<open>>\<close> or double quote; and whatever the
  inputs contain, the page has no \<^verbatim>\<open><script\<close>.
\<close>

theorem render_escapes:
  assumes "render_html cfg rp query rs err = Inr html"
  shows "(\<exists>ps. html = concat (map piece_text ps) \<and>
              (\<forall>p\<in>set ps. ok_piece (set (sources cfg rp query rs err)) p) \<and>
              Data query \<in> set ps \<and>
              (\<forall>r\<in>set rs. Data (py_str rp (dict_get_default r ''title'' (JStr []))) \<in> set ps \<and>
                           Data (py_str rp (dict_get_default r ''asin'' (JStr []))) \<in> set ps \<and>
                           Data (py_str rp (dict_get_default r ''price'' (JStr []))) \<in> set ps)) \<and>
         (\<forall>s. \<forall>x\<in>set (piece_text (Data s)). x \<noteq> CHR ''<'' \<and> x \<noteq> CHR ''>'' \<and> x \<noteq> CHR 0x22) \<and>
         \<not> sublist SCRIPT html"
proof -
  let ?S = "set (sources cfg rp query rs err)"
  from banner_pieces [of err] obtain bps where
    b: "concat (error_banner err) = concat (map piece_text bps)"
       "\<forall>p\<in>set bps. ok_piece (set (case err of None \<Rightarrow> [] | Some e \<Rightarrow> [e])) p"
    by blast
  have b': "\<forall>p\<in>set bps. ok_piece ?S p"
  proof
    fix p assume "p \<in> set bps"
    with b(2) have "ok_piece (set (case err of None \<Rightarrow> [] | Some e \<Rightarrow> [e])) p" by blast
    then show "ok_piece ?S p" by (rule ok_piece_mono) (auto simp: sources_def)
  qed
  have q: "query \<in> ?S" "AMAZON_DOMAIN cfg \<in> ?S" by (simp_all add: sources_def)
  have main: "\<exists>ps. html = concat (map piece_text ps) \<and>
              (\<forall>p\<in>set ps. ok_piece ?S p) \<and>
              Data query \<in> set ps \<and>
              (\<forall>r\<in>set rs. Data (py_str rp (dict_get_default r ''title'' (JStr []))) \<in> set ps \<and>
                           Data (py_str rp (dict_get_default r ''asin'' (JStr []))) \<in> set ps \<and>
                           Data (py_str rp (dict_get_default r ''price'' (JStr []))) \<in> set ps)"
  proof (cases "rs = []")
    case True
    with page_shape [OF assms] have
      h: "html = head_open @ html_escape query @ head_close @ concat (error_banner err) @
                 NO_RESULTS @ tail_open @ html_escape (AMAZON_DOMAIN cfg) @ tail_close"
      by simp
    let ?ps = "[Markup head_open, Data query, Markup head_close] @ bps @
               [Markup NO_RESULTS, Markup tail_open, Data (AMAZON_DOMAIN cfg), Markup tail_close]"
    have "html = concat (map piece_text ?ps)" unfolding h using b(1) by simp
    moreover have "\<forall>p\<in>set ?ps. ok_piece ?S p" using b' q by (auto simp: markup_members)
    moreover have "Data query \<in> set ?ps" by simp
    ultimately show ?thesis using True by (intro exI [of _ ?ps]) simp
  next
    case False
    with page_shape [OF assms] obtain cs where cs: "cards rp rs = Inr cs" and
      h: "html = head_open @ html_escape query @ head_close @ concat (error_banner err) @
                 GRID_OPEN @ concat cs @ DIV_CLOSE @ tail_open @ html_escape (AMAZON_DOMAIN cfg) @
                 tail_close"
      by blast
    from cards_pieces [OF cs] obtain cps where
      c: "concat cs = concat (map piece_text cps)"
         "\<forall>p\<in>set cps. ok_piece (set (concat (map (card_sources rp) rs))) p"
         "\<forall>r\<in>set rs. Data (py_str rp (dict_get_default r ''title'' (JStr []))) \<in> set cps \<and>
                     Data (py_str rp (dict_get_default r ''asin'' (JStr []))) \<in> set cps \<and>
                     Data (py_str rp (dict_get_default r ''price'' (JStr []))) \<in> set cps"
      by blast
    have c': "\<forall>p\<in>set cps. ok_piece ?S p"
    proof
      fix p assume "p \<in> set cps"
      with c(2) have "ok_piece (set (concat (map (card_sources rp) rs))) p" by blast
      then show "ok_piece ?S p" by (rule ok_piece_mono) (auto simp: sources_def)
    qed
    let ?ps = "[Markup head_open, Data query, Markup head_close] @ bps @ [Markup GRID_OPEN] @ cps @
               [Markup DIV_CLOSE, Markup tail_open, Data (AMAZON_DOMAIN cfg), Markup tail_close]"
    have "html = concat (map piece_text ?ps)" unfolding h using b(1) c(1) by simp
    moreover have "\<forall>p\<in>set ?ps. ok_piece ?S p" using b' c' q by (auto simp: markup_members)
    moreover have "Data query \<in> set ?ps" by simp
    moreover have "\<forall>r\<in>set rs. Data (py_str rp (dict_get_default r ''title'' (JStr []))) \<in> set ?ps \<and>
                     Data (py_str rp (dict_get_default r ''asin'' (JStr []))) \<in> set ?ps \<and>
                     Data (py_str rp (dict_get_default r ''price'' (JStr []))) \<in> set ?ps"
      using c(3) by simp
    ultimately show ?thesis by (intro exI [of _ ?ps]) blast
  qed
  then obtain ps where ps: "html = concat (map piece_text ps)" "\<forall>p\<in>set ps. ok_piece ?S p"
    by blast
  have "free_of SCRIPT html" unfolding ps(1) using ps(2) by (rule pieces_free_script)
  then have no: "\<not> sublist SCRIPT html" unfolding SCRIPT_cons by (rule free_of_not_sublist)
  have safe: "\<forall>s. \<forall>x\<in>set (piece_text (Data s)). x \<noteq> CHR ''<'' \<and> x \<noteq> CHR ''>'' \<and> x \<noteq> CHR 0x22"
    using html_escape_safe by simp
  from main safe no show ?thesis by (intro conjI)
qed

theorem render_escapes_witness:
  \<open>render_html \<lparr>RAINFOREST_API_KEY = Some ''k'', AMAZON_DOMAIN = ''amazon.com''\<rparr> (\<lambda>v. []) ''<b>''
       [[(''title'', JStr ''<script>alert(1)</script>''), (''link'', JStr ''https://a.example/?x="1"'')]]
       None =
     Inr (head_open @ ''&lt;b&gt;'' @ head_close @ GRID_OPEN @
          card_a @ ''https://a.example/?x=&quot;1&quot;'' @ card_b @ IMG_NONE @ card_c @
          ''&lt;script&gt;alert(1)&lt;/script&gt;'' @ card_d @ card_e @ card_f @ card_g @
          DIV_CLOSE @ tail_open @ ''amazon.com'' @ tail_close) \<and>
   \<not> sublist SCRIPT
      (head_open @ ''&lt;b&gt;'' @ head_close @ GRID_OPEN @
          card_a @ ''https://a.example/?x=&quot;1&quot;'' @ card_b @ IMG_NONE @ card_c @
          ''&lt;script&gt;alert(1)&lt;/script&gt;'' @ card_d @ card_e @ card_f @ card_g @
          DIV_CLOSE @ tail_open @ ''amazon.com'' @ tail_close) \<and>
   sublist ''&lt;script&gt;alert(1)&lt;/script&gt;''
      (head_open @ ''&lt;b&gt;'' @ head_close @ GRID_OPEN @
          card_a @ ''https://a.example/?x=&quot;1&quot;'' @ card_b @ IMG_NONE @ card_c @
          ''&lt;script&gt;alert(1)&lt;/script&gt;'' @ card_d @ card_e @ card_f @ card_g @
          DIV_CLOSE @ tail_open @ ''amazon.com'' @ tail_close)\<close>
proof -
  let ?r = \<open>[(''title'', JStr ''<script>alert(1)</script>''), (''link'', JStr ''https://a.example/?x="1"'')]\<close>
  have e: \<open>html_escape ''<b>'' = ''&lt;b&gt;''\<close> \<open>html_escape ''amazon.com'' = ''amazon.com''\<close>
    \<open>html_escape ''<script>alert(1)</script>'' = ''&lt;script&gt;alert(1)&lt;/script&gt;''\<close>
    \<open>html_escape ''https://a.example/?x="1"'' = ''https://a.example/?x=&quot;1&quot;''\<close>
    \<open>html_escape [] = []\<close>
    by (simp_all add: html_escape_def escape_char_def)
  have rt: "rating_text JNull JNull = Inr []"
    by (simp add: rating_text_def as_number_def)
  have c: \<open>result_card (\<lambda>v. []) ?r =
     Inr (card_a @ ''https://a.example/?x=&quot;1&quot;'' @ card_b @ IMG_NONE @ card_c @
          ''&lt;script&gt;alert(1)&lt;/script&gt;'' @ card_d @ card_e @ card_f @ card_g)\<close>
    by (simp add: result_card_def Let_def dict_get_simps dict_get_default_def py_or_def rt
                  img_html_def escape_value_def e)
  have 1: \<open>render_html \<lparr>RAINFOREST_API_KEY = Some ''k'', AMAZON_DOMAIN = ''amazon.com''\<rparr> (\<lambda>v. []) ''<b>''
       [?r] None =
     Inr (head_open @ ''&lt;b&gt;'' @ head_close @ GRID_OPEN @
          card_a @ ''https://a.example/?x=&quot;1&quot;'' @ card_b @ IMG_NONE @ card_c @
          ''&lt;script&gt;alert(1)&lt;/script&gt;'' @ card_d @ card_e @ card_f @ card_g @
          DIV_CLOSE @ tail_open @ ''amazon.com'' @ tail_close)\<close>
    by (simp add: render_html_def Let_def c e error_banner_def)
  have \<open>head_open @ ''&lt;b&gt;'' @ head_close @ GRID_OPEN @
          card_a @ ''https://a.example/?x=&quot;1&quot;'' @ card_b @ IMG_NONE @ card_c @
          ''&lt;script&gt;alert(1)&lt;/script&gt;'' @ card_d @ card_e @ card_f @ card_g @
          DIV_CLOSE @ tail_open @ ''amazon.com'' @ tail_close =
        (head_open @ ''&lt;b&gt;'' @ head_close @ GRID_OPEN @
          card_a @ ''https://a.example/?x=&quot;1&quot;'' @ card_b @ IMG_NONE @ card_c) @
          ''&lt;script&gt;alert(1)&lt;/script&gt;'' @ (card_d @ card_e @ card_f @ card_g @
          DIV_CLOSE @ tail_open @ ''amazon.com'' @ tail_close)\<close>
    by simp
  then have 2: \<open>sublist ''&lt;script&gt;alert(1)&lt;/script&gt;''
      (head_open @ ''&lt;b&gt;'' @ head_close @ GRID_OPEN @
          card_a @ ''https://a.example/?x=&quot;1&quot;'' @ card_b @ IMG_NONE @ card_c @
          ''&lt;script&gt;alert(1)&lt;/script&gt;'' @ card_d @ card_e @ card_f @ card_g @
          DIV_CLOSE @ tail_open @ ''amazon.com'' @ tail_close)\<close>
    by (simp only: sublist_appendI)
  from render_escapes [OF 1] have 3: \<open>\<not> sublist SCRIPT
      (head_open @ ''&lt;b&gt;'' @ head_close @ GRID_OPEN @
          card_a @ ''https://a.example/?x=&quot;1&quot;'' @ card_b @ IMG_NONE @ card_c @
          ''&lt;script&gt;alert(1)&lt;/script&gt;'' @ card_d @ card_e @ card_f @ card_g @
          DIV_CLOSE @ tail_open @ ''amazon.com'' @ tail_close)\<close>
    by (elim conjE)
  from 1 2 3 show ?thesis by (intro conjI)
qed

text \<open>A card is produced when its link and image are strings and its rating can be formatted.\<close>

lemma result_card_returns:
  assumes "\<exists>s. py_or (dict_get r ''link'') (JStr ''#'') = JStr s"
      and "\<exists>s. py_or (dict_get r ''image'') (JStr []) = JStr s"
      and "\<exists>t. rating_text (dict_get r ''rating'') (dict_get r ''ratings_total'') = Inr t"
  shows "\<exists>c. result_card rp r = Inr c"
  using assms
  by (auto simp: result_card_def Let_def img_html_def escape_value_def split: sum.splits)

subsection \<open>A rating beyond the floats\<close>

text \<open>
  The format \<^verbatim>\<open>.1f\<close> converts an int to a float first. An int rating of \<open>2 ^ 1024\<close> passes the
  \<^verbatim>\<open>isinstance\<close> test and the conversion raises OverflowError, which leaves \<^verbatim>\<open>render_html\<close>.
\<close>

lemma bit_length_0: "bit_length 0 = 0"
  by (simp add: bit_length.simps)

lemma bit_length_1: "bit_length (Suc 0) = Suc 0"
  by (subst bit_length.simps) (simp add: bit_length_0)

lemma bit_length_double: "0 < n \<Longrightarrow> bit_length (2 * n) = Suc (bit_length n)"
  by (subst bit_length.simps) simp

lemma bit_length_pow2: "bit_length (2 ^ k) = Suc k"
  by (induction k) (simp_all add: bit_length_1 bit_length_double)

lemma round_half_even_exact: "0 < d \<Longrightarrow> round_half_even (q * d) d = q"
  by (simp add: round_half_even_def Let_def)

lemma huge_rating_raises:
  "rating_text (JInt (2 ^ 1024)) (JInt 5) = Inl OverflowError"
proof -
  have a: "nat \<bar>2 ^ 1024 :: int\<bar> = 2 ^ 1024" by (simp add: nat_power_eq)
  have b: "\<not> (2 ^ 1024 :: nat) < 2 ^ 53" by simp
  have c: "bit_length (2 ^ 1024) - 53 = 972" by (simp only: bit_length_pow2)
  have p: "(2 ^ 1024 :: nat) = 2 ^ 52 * 2 ^ 972" by (simp flip: power_add)
  have d: "round_half_even (2 ^ 1024) (2 ^ 972) = 2 ^ 52"
    unfolding p by (rule round_half_even_exact) simp
  have e: "(2 ^ 1024 :: nat) \<le> 2 ^ 52 * 2 ^ 972" by (simp flip: power_add)
  have "int_to_float (2 ^ 1024) = Inl OverflowError"
    unfolding int_to_float_def Let_def a c d using b e by (simp only: if_False if_True)
  then show ?thesis
    by (simp add: rating_text_def as_number_def as_int_def format_f1_def)
qed

end
